theory Spec2Isabelle
  imports Main "HOL-Library.Word" "HOL-Library.Multiset"
begin

section \<open>JavaScript values as the converter sees them\<close>

subsection \<open>Strings\<close>

text \<open>
  A JavaScript string is a sequence of 16-bit code units; \<open>length\<close>, \<open>slice\<close> and the
  regular expressions of the script all count code units. \<open>str\<close> embeds an ASCII
  literal of the source.
\<close>

type_synonym cu = "16 word"
type_synonym jsstring = "cu list"

definition cu_of_char :: "char \<Rightarrow> cu" where
  "cu_of_char c = of_nat (of_char c)"

definition str :: "string \<Rightarrow> jsstring" where
  "str s = map cu_of_char s"

text \<open>\<^verbatim>\<open>const NBSP = '\u00A0';\<close>\<close>

definition NBSP :: jsstring where
  "NBSP = [0xA0]"

subsection \<open>Numbers\<close>

text \<open>
  A Number is \<open>NaN\<close>, one of the infinities, or finite. A finite value is kept as the
  exact decimal \<open>Fin m d\<close>, standing for \<open>m / 10 ^ d\<close>: every binary64 value has such a
  form. The rounding of a result to 53 bits of mantissa is not modelled (sums and
  decimal literals are kept exact), and \<open>-0\<close> is identified with \<open>0\<close>: the script only
  prints, truncates and compares its numbers, where the two zeros agree.
\<close>

datatype jsnum = NaN | PosInf | NegInf | Fin int nat

datatype intinf = MinusInfinity | IntVal int | PlusInfinity

text \<open>The abstract operation ToIntegerOrInfinity: \<open>NaN\<close> is 0, a finite value is truncated towards zero.\<close>

fun toIntegerOrInfinity :: "jsnum \<Rightarrow> intinf" where
  "toIntegerOrInfinity NaN = IntVal 0"
| "toIntegerOrInfinity PosInf = PlusInfinity"
| "toIntegerOrInfinity NegInf = MinusInfinity"
| "toIntegerOrInfinity (Fin m d) = IntVal (sgn m * (\<bar>m\<bar> div 10 ^ d))"

text \<open>\<open>x + k\<close> for an integer literal \<open>k\<close> of the source.\<close>

fun num_plus :: "jsnum \<Rightarrow> int \<Rightarrow> jsnum" where
  "num_plus NaN k = NaN"
| "num_plus PosInf k = PosInf"
| "num_plus NegInf k = NegInf"
| "num_plus (Fin m d) k = Fin (m + k * 10 ^ d) d"

text \<open>The relational \<open>x < y\<close> on Numbers; \<open>a > b\<close> is \<open>b < a\<close>. Any comparison with \<open>NaN\<close> is false.\<close>

fun num_less :: "jsnum \<Rightarrow> jsnum \<Rightarrow> bool" where
  "num_less NaN y = False"
| "num_less x NaN = False"
| "num_less (Fin m d) (Fin m' d') = (m * 10 ^ d' < m' * 10 ^ d)"
| "num_less x PosInf = (x \<noteq> PosInf)"
| "num_less NegInf y = (y \<noteq> NegInf)"
| "num_less x y = False"

definition nat_num :: "nat \<Rightarrow> jsnum" where
  "nat_num n = Fin (int n) 0"

subsection \<open>Printing numbers\<close>

function digits10 :: "nat \<Rightarrow> nat list" where
  "digits10 n = (if n < 10 then [n] else digits10 (n div 10) @ [n mod 10])"
  by pat_completeness auto
termination
  by (relation "measure (\<lambda>n. n)") auto

declare digits10.simps [simp del]

definition digit_cu :: "nat \<Rightarrow> cu" where
  "digit_cu d = of_nat (48 + d)"

definition digit_str :: "nat list \<Rightarrow> jsstring" where
  "digit_str ds = map digit_cu ds"

text \<open>
  Number::toString (radix 10) of ECMA-262 for a positive finite value \<open>a / 10 ^ d\<close>:
  \<open>ds\<close> are the significant digits, \<open>k\<close> their number, and the value is
  \<open>0.ds \<times> 10 ^ n\<close>.
\<close>

definition posToString :: "nat \<Rightarrow> nat \<Rightarrow> jsstring" where
  "posToString a d =
     (let ds0 = digits10 a;
          ds = rev (dropWhile (\<lambda>x. x = 0) (rev ds0));
          k = int (length ds);
          n = int (length ds0) - int d
      in if k \<le> n \<and> n \<le> 21 then digit_str ds @ replicate (nat (n - k)) (digit_cu 0)
         else if 0 < n \<and> n \<le> 21 then
           digit_str (take (nat n) ds) @ str ''.'' @ digit_str (drop (nat n) ds)
         else if -6 < n \<and> n \<le> 0 then
           str ''0.'' @ replicate (nat (- n)) (digit_cu 0) @ digit_str ds
         else
           (let e = n - 1;
                sign = (if e < 0 then str ''-'' else str ''+'');
                es = digit_str (digits10 (nat \<bar>e\<bar>))
            in if k = 1 then digit_str ds @ str ''e'' @ sign @ es
               else digit_str (take 1 ds) @ str ''.'' @ digit_str (drop 1 ds)
                    @ str ''e'' @ sign @ es))"

text \<open>\<^verbatim>\<open>String(val)\<close> for a Number.\<close>

fun numToString :: "jsnum \<Rightarrow> jsstring" where
  "numToString NaN = str ''NaN''"
| "numToString PosInf = str ''Infinity''"
| "numToString NegInf = str ''-Infinity''"
| "numToString (Fin m d) =
     (if m = 0 then str ''0''
      else if m < 0 then str ''-'' @ posToString (nat (- m)) d
      else posToString (nat m) d)"

subsection \<open>Values, property access\<close>

text \<open>
  An object is the list of its own enumerable string-keyed properties in the order
  \<^verbatim>\<open>Object.keys\<close> lists them, each key once. The script reads no inherited property
  by name, so only own properties are modelled.
\<close>

datatype jsval =
    JUndefined
  | JNull
  | JBool bool
  | JNum jsnum
  | JStr jsstring
  | JArr "jsval list"
  | JObj "(jsstring \<times> jsval) list"

datatype error = RangeError | TypeError

text \<open>ToBoolean, as used by \<^verbatim>\<open>if (x)\<close>, \<^verbatim>\<open>x && y\<close> and \<^verbatim>\<open>x || y\<close>.\<close>

fun truthy :: "jsval \<Rightarrow> bool" where
  "truthy JUndefined = False"
| "truthy JNull = False"
| "truthy (JBool b) = b"
| "truthy (JNum NaN) = False"
| "truthy (JNum (Fin m d)) = (m \<noteq> 0)"
| "truthy (JNum _) = True"
| "truthy (JStr s) = (s \<noteq> [])"
| "truthy (JArr _) = True"
| "truthy (JObj _) = True"

text \<open>\<^verbatim>\<open>typeof val === 'object'\<close> (true of \<open>null\<close> too).\<close>

fun typeof_object :: "jsval \<Rightarrow> bool" where
  "typeof_object JNull = True"
| "typeof_object (JArr _) = True"
| "typeof_object (JObj _) = True"
| "typeof_object _ = False"

text \<open>The property key of array element or string position \<open>i\<close>.\<close>

definition idxStr :: "nat \<Rightarrow> jsstring" where
  "idxStr i = digit_str (digits10 i)"

definition is_digit :: "cu \<Rightarrow> bool" where
  "is_digit c = (48 \<le> c \<and> c \<le> 57)"

definition digit_val :: "cu \<Rightarrow> nat" where
  "digit_val c = unat c - 48"

definition digits_val :: "jsstring \<Rightarrow> nat" where
  "digits_val s = foldl (\<lambda>acc c. 10 * acc + digit_val c) 0 s"

text \<open>An array index is a canonical numeric string below \<open>2^32 - 1\<close>.\<close>

definition arrayIndex :: "jsstring \<Rightarrow> nat option" where
  "arrayIndex k =
     (if k \<noteq> [] \<and> list_all is_digit k \<and> (k = str ''0'' \<or> hd k \<noteq> 48)
         \<and> digits_val k < 4294967295
      then Some (digits_val k) else None)"

text \<open>\<^verbatim>\<open>Object.keys(v)\<close>.\<close>

fun objectKeys :: "jsval \<Rightarrow> error + jsstring list" where
  "objectKeys JUndefined = Inl TypeError"
| "objectKeys JNull = Inl TypeError"
| "objectKeys (JObj kvs) = Inr (map fst kvs)"
| "objectKeys (JArr xs) = Inr (map idxStr [0..<length xs])"
| "objectKeys (JStr s) = Inr (map idxStr [0..<length s])"
| "objectKeys _ = Inr []"

text \<open>\<^verbatim>\<open>v[k]\<close> and \<^verbatim>\<open>v.k\<close>: reading a property of \<open>null\<close> or \<open>undefined\<close> throws.\<close>

fun getProp :: "jsval \<Rightarrow> jsstring \<Rightarrow> error + jsval" where
  "getProp JUndefined k = Inl TypeError"
| "getProp JNull k = Inl TypeError"
| "getProp (JObj kvs) k = Inr (case map_of kvs k of Some v \<Rightarrow> v | None \<Rightarrow> JUndefined)"
| "getProp (JArr xs) k =
     Inr (case arrayIndex k of
            Some i \<Rightarrow> if i < length xs then xs ! i else JUndefined
          | None \<Rightarrow> JUndefined)"
| "getProp (JStr s) k =
     Inr (case arrayIndex k of
            Some i \<Rightarrow> if i < length s then JStr [s ! i] else JUndefined
          | None \<Rightarrow> JUndefined)"
| "getProp _ k = Inr JUndefined"

text \<open>\<^verbatim>\<open>Object.prototype.hasOwnProperty.call(v, k)\<close>, for the keys the script asks about.\<close>

fun hasOwn :: "jsval \<Rightarrow> jsstring \<Rightarrow> bool" where
  "hasOwn (JObj kvs) k = (k \<in> set (map fst kvs))"
| "hasOwn (JArr xs) k = (case arrayIndex k of Some i \<Rightarrow> i < length xs | None \<Rightarrow> False)"
| "hasOwn (JStr s) k = (case arrayIndex k of Some i \<Rightarrow> i < length s | None \<Rightarrow> False)"
| "hasOwn _ k = False"

subsection \<open>String built-ins\<close>

text \<open>
  \<^verbatim>\<open>s.repeat(cnt)\<close>: a negative or infinite count is a RangeError. (The engine's
  limit on the length of a string is not modelled.)
\<close>

definition repeat_str :: "jsstring \<Rightarrow> jsnum \<Rightarrow> error + jsstring" where
  "repeat_str s cnt =
     (case toIntegerOrInfinity cnt of
        IntVal n \<Rightarrow> if n < 0 then Inl RangeError else Inr (concat (replicate (nat n) s))
      | _ \<Rightarrow> Inl RangeError)"

text \<open>\<^verbatim>\<open>s.slice(0, end)\<close>.\<close>

definition slice0 :: "jsstring \<Rightarrow> jsnum \<Rightarrow> jsstring" where
  "slice0 s endPos =
     (let len = int (length s);
          to = (case toIntegerOrInfinity endPos of
                  MinusInfinity \<Rightarrow> 0
                | IntVal e \<Rightarrow> if e < 0 then max (len + e) 0 else min e len
                | PlusInfinity \<Rightarrow> len)
      in take (nat to) s)"

section \<open>The line renderer\<close>

text \<open>
  The truncation step of \<^verbatim>\<open>formatValue\<close>:
  \<^verbatim>\<open>if (truncateLen > 0 && s.length > truncateLen) s = s.slice(0, truncateLen) + '...';\<close>
\<close>

definition truncateStr :: "jsstring \<Rightarrow> jsnum \<Rightarrow> jsstring" where
  "truncateStr s truncateLen =
     (if num_less (Fin 0 0) truncateLen \<and> num_less truncateLen (nat_num (length s))
      then slice0 s truncateLen @ str ''...''
      else s)"

fun formatValue :: "jsval \<Rightarrow> jsnum \<Rightarrow> jsstring" where
  "formatValue (JStr s) truncateLen = str ''\"'' @ truncateStr s truncateLen @ str ''\"''"
| "formatValue (JNum n) truncateLen = numToString n"
| "formatValue (JBool b) truncateLen = (if b then str ''true'' else str ''false'')"
| "formatValue (JArr xs) truncateLen = str ''[Array]''"
| "formatValue (JObj kvs) truncateLen = str ''{Object}''"
| "formatValue JNull truncateLen = str ''null''"
| "formatValue JUndefined truncateLen = str ''null''"

definition indent :: "jsnum \<Rightarrow> error + jsstring" where
  "indent nbspCount = repeat_str NBSP nbspCount"

definition input2Order :: "jsstring list" where
  "input2Order =
     [str ''msgVersion'', str ''clientId'', str ''eventTimeMillis'',
      str ''subscriptionNotification'', str ''environmenmt'', str ''marketCode'']"

definition deepSubKeys :: "jsstring list" where
  "deepSubKeys = [str ''version'', str ''productId'', str ''notificationType'', str ''purchaseToken'']"

definition preferredOrder :: "jsstring list" where
  "preferredOrder =
     [str ''msgVersion'', str ''clientId'', str ''productId'', str ''messageType'',
      str ''purchaseId'', str ''developerPayload'', str ''purchaseTimeMillis'',
      str ''purchaseState'', str ''price'', str ''priceCurrencyCode'', str ''productName'',
      str ''paymentTypeList'', str ''billingKey'', str ''isTestMdn'',
      str ''purchaseToken'', str ''environment'', str ''marketCode'', str ''signature'']"

text \<open>
  \<^verbatim>\<open>subKeys.forEach((subKey, idx) => ...)\<close> of the subscription block: \<open>lines\<close> is the
  array being pushed to.
\<close>

fun subKeyLines ::
  "jsstring \<Rightarrow> jsnum \<Rightarrow> jsval \<Rightarrow> jsstring list \<Rightarrow> nat \<Rightarrow> jsstring list \<Rightarrow> jsstring list
     \<Rightarrow> error + jsstring list" where
  "subKeyLines ind2 truncateLen val subKeys idx [] lines = Inr lines"
| "subKeyLines ind2 truncateLen val subKeys idx (subKey # rest) lines =
     (case getProp val subKey of
        Inl e \<Rightarrow> Inl e
      | Inr sv \<Rightarrow>
          (let subVal = formatValue sv truncateLen;
               comma = (if int idx < int (length subKeys) - 1 then str '','' else [])
           in subKeyLines ind2 truncateLen val subKeys (idx + 1) rest
                (lines @
                  [if subKey \<in> set deepSubKeys
                   then ind2 @ NBSP @ NBSP @ str ''\"'' @ subKey @ str ''\": '' @ subVal @ comma
                   else ind2 @ str ''\"'' @ subKey @ str ''\": '' @ subVal @ comma])))"

text \<open>\<^verbatim>\<open>for (const key of input2Order)\<close>: the subscription variant.\<close>

fun subscriptionLoop ::
  "jsval \<Rightarrow> jsstring \<Rightarrow> jsstring \<Rightarrow> jsnum \<Rightarrow> jsstring list \<Rightarrow> jsstring list
     \<Rightarrow> error + jsstring list" where
  "subscriptionLoop origin ind ind2 truncateLen [] lines = Inr lines"
| "subscriptionLoop origin ind ind2 truncateLen (key # rest) lines =
     (if \<not> hasOwn origin key then subscriptionLoop origin ind ind2 truncateLen rest lines
      else
        case getProp origin key of
          Inl e \<Rightarrow> Inl e
        | Inr val \<Rightarrow>
            if key = str ''subscriptionNotification'' \<and> truthy val \<and> typeof_object val then
              (case objectKeys val of
                 Inl e \<Rightarrow> Inl e
               | Inr subKeys \<Rightarrow>
                   (case subKeyLines ind2 truncateLen val subKeys 0 subKeys
                           (lines @ [ind @ str ''\"'' @ key @ str ''\": {'']) of
                      Inl e \<Rightarrow> Inl e
                    | Inr lines' \<Rightarrow>
                        subscriptionLoop origin ind ind2 truncateLen rest
                          (lines' @ [ind @ str ''},''])))
            else
              (let fv = formatValue val truncateLen;
                   commaNeeded = (if key \<noteq> last input2Order then str '','' else [])
               in subscriptionLoop origin ind ind2 truncateLen rest
                    (lines @ [ind @ str ''\"'' @ key @ str ''\": '' @ fv @ commaNeeded])))"

text \<open>\<^verbatim>\<open>val.forEach((item, idx) => ...)\<close> of the payment type list.\<close>

fun paymentLines ::
  "jsstring \<Rightarrow> jsnum \<Rightarrow> jsval list \<Rightarrow> nat \<Rightarrow> jsval list \<Rightarrow> jsstring list
     \<Rightarrow> error + jsstring list" where
  "paymentLines ind2 truncateLen val idx [] lines = Inr lines"
| "paymentLines ind2 truncateLen val idx (item # rest) lines =
     (case getProp item (str ''paymentMethod'') of
        Inl e \<Rightarrow> Inl e
      | Inr pmv \<Rightarrow>
          (case getProp item (str ''amount'') of
             Inl e \<Rightarrow> Inl e
           | Inr amtv \<Rightarrow>
               (let pm = formatValue pmv truncateLen;
                    amt = formatValue amtv truncateLen;
                    comma = (if int idx < int (length val) - 1 then str '','' else [])
                in paymentLines ind2 truncateLen val (idx + 1) rest
                     (lines @
                       [ind2 @ NBSP @ NBSP @ str ''{ \"paymentMethod\": '' @ pm
                          @ str '', \"amount\": '' @ amt @ str '' }'' @ comma]))))"

text \<open>
  \<^verbatim>\<open>for (const key of ordered)\<close>: the generic variant. \<open>ordered\<close> is the whole array,
  whose last element decides the comma. The first branch is the one of
  \<^verbatim>\<open>key === 'paymentTypeList' && Array.isArray(val)\<close>.
\<close>

fun genericLoop ::
  "jsval \<Rightarrow> jsstring \<Rightarrow> jsstring \<Rightarrow> jsnum \<Rightarrow> jsstring list \<Rightarrow> jsstring list \<Rightarrow> jsstring list
     \<Rightarrow> error + jsstring list" where
  "genericLoop origin ind ind2 truncateLen ordered [] lines = Inr lines"
| "genericLoop origin ind ind2 truncateLen ordered (key # rest) lines =
     (case getProp origin key of
        Inl e \<Rightarrow> Inl e
      | Inr val \<Rightarrow>
          (case (if key = str ''paymentTypeList'' then val else JUndefined) of
             JArr items \<Rightarrow>
               (case paymentLines ind2 truncateLen items 0 items
                       (lines @ [ind @ str ''\"'' @ key @ str ''\": [''])  of
                  Inl e \<Rightarrow> Inl e
                | Inr lines' \<Rightarrow>
                    genericLoop origin ind ind2 truncateLen ordered rest
                      (lines' @ [ind @ str ''],'']))
           | _ \<Rightarrow>
               (let fv = formatValue val truncateLen;
                    commaNeeded = (if key \<noteq> last ordered then str '','' else [])
                in genericLoop origin ind ind2 truncateLen ordered rest
                     (lines @ [ind @ str ''\"'' @ key @ str ''\": '' @ fv @ commaNeeded]))))"

text \<open>
  \<^verbatim>\<open>[...preferredOrder.filter(k => keys.includes(k)), ...keys.filter(k => !preferredOrder.includes(k))]\<close>
\<close>

definition orderedKeys :: "jsstring list \<Rightarrow> jsstring list" where
  "orderedKeys keys =
     filter (\<lambda>k. k \<in> set keys) preferredOrder @ filter (\<lambda>k. k \<notin> set preferredOrder) keys"

definition originToPrettyLines :: "jsval \<Rightarrow> jsnum \<Rightarrow> jsnum \<Rightarrow> error + jsstring list" where
  "originToPrettyLines origin indentSize truncateLen =
     (case indent indentSize of
        Inl e \<Rightarrow> Inl e
      | Inr ind \<Rightarrow>
     (case indent (num_plus indentSize 2) of
        Inl e \<Rightarrow> Inl e
      | Inr ind2 \<Rightarrow>
     (case getProp origin (str ''subscriptionNotification'') of
        Inl e \<Rightarrow> Inl e
      | Inr sn \<Rightarrow>
          if truthy sn then
            (case subscriptionLoop origin ind ind2 truncateLen input2Order [str ''{''] of
               Inl e \<Rightarrow> Inl e
             | Inr lines \<Rightarrow> Inr (lines @ [str ''}'']))
          else
            (case objectKeys origin of
               Inl e \<Rightarrow> Inl e
             | Inr keys \<Rightarrow>
                 (let ordered = orderedKeys keys
                  in case genericLoop origin ind ind2 truncateLen ordered ordered [str ''{''] of
                       Inl e \<Rightarrow> Inl e
                     | Inr lines \<Rightarrow> Inr (lines @ [str ''}'']))))))"

section \<open>The card assembler\<close>

text \<open>
  The options object that \<^verbatim>\<open>main\<close> builds and \<^verbatim>\<open>buildAdaptiveMessage\<close> destructures
  (\<^verbatim>\<open>actions\<close> is never passed and never read).
\<close>

record options =
  indentSize :: jsnum
  truncateLen :: jsnum
  title :: jsstring
  version :: jsstring
  useMonospace :: bool
  mode :: jsstring

text \<open>
  The getters of \<^verbatim>\<open>Date\<close> on a time value \<open>t\<close> (milliseconds since the epoch, UTC):
  the date of day number \<open>t div 86400000\<close> in the proleptic Gregorian calendar.
\<close>

definition civilFromDays :: "int \<Rightarrow> int \<times> int \<times> int" where
  "civilFromDays days =
     (let z = days + 719468;
          era = z div 146097;
          doe = z mod 146097;
          yoe = (doe - doe div 1460 + doe div 36524 - doe div 146096) div 365;
          doy = doe - (365 * yoe + yoe div 4 - yoe div 100);
          mp = (5 * doy + 2) div 153;
          d = doy - (153 * mp + 2) div 5 + 1;
          m = (if mp < 10 then mp + 3 else mp - 9);
          y = yoe + era * 400 + (if m \<le> 2 then 1 else 0)
      in (y, m, d))"

definition getUTCFullYear :: "int \<Rightarrow> int" where
  "getUTCFullYear t = fst (civilFromDays (t div 86400000))"

definition getUTCMonth :: "int \<Rightarrow> int" where
  "getUTCMonth t = fst (snd (civilFromDays (t div 86400000))) - 1"

definition getUTCDate :: "int \<Rightarrow> int" where
  "getUTCDate t = snd (snd (civilFromDays (t div 86400000)))"

definition getUTCHours :: "int \<Rightarrow> int" where
  "getUTCHours t = (t div 3600000) mod 24"

definition getUTCMinutes :: "int \<Rightarrow> int" where
  "getUTCMinutes t = (t div 60000) mod 60"

definition getUTCSeconds :: "int \<Rightarrow> int" where
  "getUTCSeconds t = (t div 1000) mod 60"

text \<open>\<^verbatim>\<open>s.padStart(2, '0')\<close>.\<close>

definition padStart2 :: "jsstring \<Rightarrow> jsstring" where
  "padStart2 s = replicate (2 - length s) (digit_cu 0) @ s"

text \<open>
  \<^verbatim>\<open>getKSTTimeString\<close>, with the clock reading \<open>now\<close> (what \<^verbatim>\<open>new Date().getTime()\<close>
  returned) as its argument. A time value beyond \<open>8.64e15\<close> is an invalid date, whose
  getters all return \<open>NaN\<close>.
\<close>

definition getKSTTimeString :: "int \<Rightarrow> jsstring" where
  "getKSTTimeString now =
     (let kst = now + 9 * 60 * 60 * 1000;
          field = (\<lambda>g k. if \<bar>kst\<bar> \<le> 8640000000000000 then Fin (g kst + k) 0 else NaN);
          yyyy = numToString (field getUTCFullYear 0);
          mm = padStart2 (numToString (field getUTCMonth 1));
          dd = padStart2 (numToString (field getUTCDate 0));
          hh = padStart2 (numToString (field getUTCHours 0));
          min = padStart2 (numToString (field getUTCMinutes 0));
          ss = padStart2 (numToString (field getUTCSeconds 0))
      in yyyy @ str ''-'' @ mm @ str ''-'' @ dd @ str '' '' @ hh @ str '':'' @ min @ str '':'' @ ss)"

text \<open>\<^verbatim>\<open>for (const line of lines) inlines.push({ type: 'TextRun', text: `\n${line}` })\<close>\<close>

fun pushTextRuns :: "jsstring list \<Rightarrow> jsval list \<Rightarrow> jsval list" where
  "pushTextRuns [] inlines = inlines"
| "pushTextRuns (line # rest) inlines =
     pushTextRuns rest
       (inlines @ [JObj [(str ''type'', JStr (str ''TextRun'')),
                         (str ''text'', JStr (str ''\<newline>'' @ line))]])"

definition linesToAdaptiveBody :: "jsstring list \<Rightarrow> options \<Rightarrow> int \<Rightarrow> jsval" where
  "linesToAdaptiveBody lines opts now =
     (let inlines =
            pushTextRuns lines
              [JObj [(str ''type'', JStr (str ''TextRun'')),
                     (str ''text'',
                        JStr (title opts @ str '' ('' @ getKSTTimeString now @ str '')'')),
                     (str ''weight'', JStr (str ''bolder''))]]
      in JArr [JObj [(str ''type'', JStr (str ''RichTextBlock'')),
                     (str ''inlines'', JArr inlines)]])"

definition buildAdaptiveMessage :: "jsval \<Rightarrow> options \<Rightarrow> int \<Rightarrow> error + jsval" where
  "buildAdaptiveMessage origin opts now =
     (case originToPrettyLines origin (indentSize opts) (truncateLen opts) of
        Inl e \<Rightarrow> Inl e
      | Inr lines \<Rightarrow>
          (let body = linesToAdaptiveBody lines opts now
           in Inr (JObj
                [(str ''type'', JStr (str ''message'')),
                 (str ''attachments'',
                    JArr [JObj
                      [(str ''contentType'', JStr (str ''application/vnd.microsoft.card.adaptive'')),
                       (str ''contentUrl'', JNull),
                       (str ''content'',
                          JObj [(str ''$schema'',
                                   JStr (str ''http://adaptivecards.io/schemas/adaptive-card.json'')),
                                (str ''type'', JStr (str ''AdaptiveCard'')),
                                (str ''version'', JStr (version opts)),
                                (str ''msteams'', JObj [(str ''width'', JStr (str ''Full''))]),
                                (str ''body'', body)])]])])))"

section \<open>The loose-text parser and \<^verbatim>\<open>main\<close>\<close>

subsection \<open>Character classes of the regular expressions\<close>

text \<open>\<^verbatim>\<open>\s\<close>, which is also what \<^verbatim>\<open>trim\<close> and \<^verbatim>\<open>Number\<close> strip: WhiteSpace and LineTerminator.\<close>

definition isWs :: "cu \<Rightarrow> bool" where
  "isWs c = (c \<in> set [0x09, 0x0A, 0x0B, 0x0C, 0x0D, 0x20, 0xA0, 0x1680, 0x2028, 0x2029,
                        0x202F, 0x205F, 0x3000, 0xFEFF]
             \<or> (0x2000 \<le> c \<and> c \<le> 0x200A))"

text \<open>\<^verbatim>\<open>.\<close> matches any code unit but a line terminator.\<close>

definition isDot :: "cu \<Rightarrow> bool" where
  "isDot c = (c \<notin> set [0x0A, 0x0D, 0x2028, 0x2029])"

definition isWordCh :: "cu \<Rightarrow> bool" where
  "isWordCh c = ((0x41 \<le> c \<and> c \<le> 0x5A) \<or> (0x61 \<le> c \<and> c \<le> 0x7A) \<or> is_digit c \<or> c = 0x5F)"

text \<open>\<^verbatim>\<open>[\w.-]\<close>\<close>

definition isKeyCh :: "cu \<Rightarrow> bool" where
  "isKeyCh c = (isWordCh c \<or> c = 0x2E \<or> c = 0x2D)"

definition trim :: "jsstring \<Rightarrow> jsstring" where
  "trim s = rev (dropWhile isWs (rev (dropWhile isWs s)))"

subsection \<open>\<^verbatim>\<open>Number(string)\<close>\<close>

text \<open>
  The value of a finite literal \<open>m \<times> 10 ^ e\<close>, overflowing to an infinity from
  \<open>2^1024 - 2^970\<close> on and underflowing to zero up to \<open>2^-1075\<close>, as rounding to binary64
  does.
\<close>

definition finiteLiteral :: "bool \<Rightarrow> nat \<Rightarrow> int \<Rightarrow> jsnum" where
  "finiteLiteral neg m e =
     (let num = (if 0 \<le> e then int m * 10 ^ nat e else int m);
          den = (if 0 \<le> e then 0 else nat (- e))
      in if (2 ^ 1024 - 2 ^ 970) * 10 ^ den \<le> num then (if neg then NegInf else PosInf)
         else if num * 2 ^ 1075 \<le> 10 ^ den then Fin 0 0
         else Fin (if neg then - num else num) den)"

definition hexDigitVal :: "cu \<Rightarrow> nat option" where
  "hexDigitVal c =
     (if is_digit c then Some (unat c - 48)
      else if 0x61 \<le> c \<and> c \<le> 0x66 then Some (unat c - 87)
      else if 0x41 \<le> c \<and> c \<le> 0x46 then Some (unat c - 55)
      else None)"

text \<open>The digits of a literal in the given radix; \<open>None\<close> when a character is no digit of it.\<close>

fun radixVal :: "nat \<Rightarrow> nat \<Rightarrow> jsstring \<Rightarrow> nat option" where
  "radixVal radix acc [] = Some acc"
| "radixVal radix acc (c # cs) =
     (case hexDigitVal c of
        None \<Rightarrow> None
      | Some v \<Rightarrow> if v < radix then radixVal radix (radix * acc + v) cs else None)"

text \<open>NonDecimalIntegerLiteral: \<^verbatim>\<open>0x\<close>, \<^verbatim>\<open>0o\<close>, \<^verbatim>\<open>0b\<close> (either case) and at least one digit.\<close>

definition nonDecimalRadix :: "cu \<Rightarrow> nat option" where
  "nonDecimalRadix c =
     (if c = 0x78 \<or> c = 0x58 then Some 16
      else if c = 0x6F \<or> c = 0x4F then Some 8
      else if c = 0x62 \<or> c = 0x42 then Some 2
      else None)"

text \<open>ExponentPart after the mantissa: empty, or \<^verbatim>\<open>e\<close>/\<^verbatim>\<open>E\<close>, an optional sign and digits.\<close>

definition exponentPart :: "jsstring \<Rightarrow> int option" where
  "exponentPart r =
     (case r of
        [] \<Rightarrow> Some 0
      | c # r1 \<Rightarrow>
          if c = 0x65 \<or> c = 0x45 then
            (let neg = (r1 \<noteq> [] \<and> hd r1 = 0x2D);
                 r2 = (if r1 \<noteq> [] \<and> (hd r1 = 0x2B \<or> hd r1 = 0x2D) then tl r1 else r1)
             in if r2 \<noteq> [] \<and> list_all is_digit r2
                then Some (if neg then - int (digits_val r2) else int (digits_val r2))
                else None)
          else None)"

text \<open>
  StrUnsignedDecimalLiteral: \<^verbatim>\<open>Infinity\<close>, or digits with an optional fraction and
  exponent, a digit on at least one side of the point.
\<close>

definition unsignedDecimal :: "bool \<Rightarrow> jsstring \<Rightarrow> jsnum" where
  "unsignedDecimal neg u =
     (if u = str ''Infinity'' then (if neg then NegInf else PosInf)
      else
        (let ip = takeWhile is_digit u;
             r1 = dropWhile is_digit u;
             hasPoint = (r1 \<noteq> [] \<and> hd r1 = 0x2E);
             fp = (if hasPoint then takeWhile is_digit (tl r1) else []);
             r2 = (if hasPoint then dropWhile is_digit (tl r1) else r1)
         in if ip = [] \<and> fp = [] then NaN
            else case exponentPart r2 of
                   None \<Rightarrow> NaN
                 | Some e \<Rightarrow> finiteLiteral neg (digits_val (ip @ fp)) (e - int (length fp))))"

text \<open>StringToNumber: \<open>NaN\<close> for every string that is not a StringNumericLiteral.\<close>

definition stringToNumber :: "jsstring \<Rightarrow> jsnum" where
  "stringToNumber s =
     (let t = trim s
      in case t of
           [] \<Rightarrow> Fin 0 0
         | c # cs \<Rightarrow>
             if c = 0x30 \<and> cs \<noteq> [] \<and> nonDecimalRadix (hd cs) \<noteq> None then
               (case nonDecimalRadix (hd cs) of
                  None \<Rightarrow> NaN
                | Some radix \<Rightarrow>
                    if tl cs = [] then NaN
                    else case radixVal radix 0 (tl cs) of
                           None \<Rightarrow> NaN
                         | Some v \<Rightarrow> finiteLiteral False v 0)
             else if c = 0x2B then unsignedDecimal False cs
             else if c = 0x2D then unsignedDecimal True cs
             else unsignedDecimal False t)"

subsection \<open>The fallback parser\<close>

text \<open>\<^verbatim>\<open>raw.split(/\r?\n/)\<close>: \<open>cur\<close> is the piece being read.\<close>

fun splitLines :: "jsstring \<Rightarrow> jsstring \<Rightarrow> jsstring list" where
  "splitLines cur [] = [cur]"
| "splitLines cur [c] = (if c = 0x0A then [cur, []] else [cur @ [c]])"
| "splitLines cur (c # d # cs) =
     (if c = 0x0A then cur # splitLines [] (d # cs)
      else if c = 0x0D \<and> d = 0x0A then cur # splitLines [] cs
      else splitLines (cur @ [c]) (d # cs))"

text \<open>
  The backtracking matcher, as the list of the ways a pattern element can consume a
  prefix, in the order the engine tries them: a greedy star tries the longest run
  first, a lazy one the shortest, an optional character is tried present first.
\<close>

fun greedyStar :: "(cu \<Rightarrow> bool) \<Rightarrow> jsstring \<Rightarrow> (jsstring \<times> jsstring) list" where
  "greedyStar P [] = [([], [])]"
| "greedyStar P (c # cs) =
     (if P c then map (\<lambda>(a, r). (c # a, r)) (greedyStar P cs) else []) @ [([], c # cs)]"

fun lazyStar :: "(cu \<Rightarrow> bool) \<Rightarrow> jsstring \<Rightarrow> (jsstring \<times> jsstring) list" where
  "lazyStar P [] = [([], [])]"
| "lazyStar P (c # cs) =
     ([], c # cs) # (if P c then map (\<lambda>(a, r). (c # a, r)) (lazyStar P cs) else [])"

definition greedyPlus :: "(cu \<Rightarrow> bool) \<Rightarrow> jsstring \<Rightarrow> (jsstring \<times> jsstring) list" where
  "greedyPlus P s = filter (\<lambda>(a, r). a \<noteq> []) (greedyStar P s)"

definition lazyPlus :: "(cu \<Rightarrow> bool) \<Rightarrow> jsstring \<Rightarrow> (jsstring \<times> jsstring) list" where
  "lazyPlus P s = filter (\<lambda>(a, r). a \<noteq> []) (lazyStar P s)"

definition optChar :: "cu \<Rightarrow> jsstring \<Rightarrow> jsstring list" where
  "optChar c s = (if s \<noteq> [] \<and> hd s = c then [tl s] else []) @ [s]"

definition litChar :: "cu \<Rightarrow> jsstring \<Rightarrow> jsstring list" where
  "litChar c s = (if s \<noteq> [] \<and> hd s = c then [tl s] else [])"

text \<open>
  \<^verbatim>\<open>line.match(/^\s*"?([\w.-]+)"?\s*:\s*(.+?)\s*$/)\<close>: the captures \<open>(m[1], m[2])\<close> of
  the first way to match, \<open>None\<close> for \<open>null\<close>.
\<close>

definition matchLine :: "jsstring \<Rightarrow> (jsstring \<times> jsstring) option" where
  "matchLine line =
     (case [(k, v).
              (w1, r1) \<leftarrow> greedyStar isWs line,
              r2 \<leftarrow> optChar 0x22 r1,
              (k, r3) \<leftarrow> greedyPlus isKeyCh r2,
              r4 \<leftarrow> optChar 0x22 r3,
              (w2, r5) \<leftarrow> greedyStar isWs r4,
              r6 \<leftarrow> litChar 0x3A r5,
              (w3, r7) \<leftarrow> greedyStar isWs r6,
              (v, r8) \<leftarrow> lazyPlus isDot r7,
              (w4, r9) \<leftarrow> greedyStar isWs r8,
              r9 = []] of
        [] \<Rightarrow> None
      | m # _ \<Rightarrow> Some m)"

text \<open>ASCII letters are the only ones the patterns and \<^verbatim>\<open>'true'\<close> can meet.\<close>

definition toLowerCase :: "jsstring \<Rightarrow> jsstring" where
  "toLowerCase s = map (\<lambda>c. if 0x41 \<le> c \<and> c \<le> 0x5A then c + 0x20 else c) s"

text \<open>\<^verbatim>\<open>/^(true|false)$/i.test(v)\<close>\<close>

definition isBoolText :: "jsstring \<Rightarrow> bool" where
  "isBoolText v = (toLowerCase v = str ''true'' \<or> toLowerCase v = str ''false'')"

text \<open>\<^verbatim>\<open>/^\d+(\.\d+)?$/.test(v)\<close>\<close>

definition isNumberText :: "jsstring \<Rightarrow> bool" where
  "isNumberText v =
     (let ip = takeWhile is_digit v; r = dropWhile is_digit v
      in ip \<noteq> [] \<and> (r = [] \<or> (hd r = 0x2E \<and> tl r \<noteq> [] \<and> list_all is_digit (tl r))))"

text \<open>\<^verbatim>\<open>m[2].replace(/,$/, '')\<close>\<close>

definition stripComma :: "jsstring \<Rightarrow> jsstring" where
  "stripComma v = (if v \<noteq> [] \<and> last v = 0x2C then butlast v else v)"

text \<open>\<^verbatim>\<open>v.replace(/^"|"$/g, '')\<close>: a leading quote, then a trailing one of what is left.\<close>

definition stripQuotes :: "jsstring \<Rightarrow> jsstring" where
  "stripQuotes v =
     (let v1 = (if v \<noteq> [] \<and> hd v = 0x22 then tl v else v)
      in if v1 \<noteq> [] \<and> last v1 = 0x22 then butlast v1 else v1)"

definition coerce :: "jsstring \<Rightarrow> jsval" where
  "coerce m2 =
     (let v = stripComma m2
      in if isBoolText v then JBool (toLowerCase v = str ''true'')
         else if isNumberText v then JNum (stringToNumber v)
         else JStr (stripQuotes v))"

text \<open>
  \<^verbatim>\<open>origin[k] = v\<close> on the ordinary object \<open>kvs\<close>: an existing key keeps its place, a
  new array index goes among the indices in ascending order, any other new key goes
  last. \<^verbatim>\<open>__proto__\<close> is the accessor of \<^verbatim>\<open>Object.prototype\<close>, which ignores a value
  that is no object and creates no property.
\<close>

definition indexBelow :: "nat \<Rightarrow> jsstring \<times> jsval \<Rightarrow> bool" where
  "indexBelow i kv = (case arrayIndex (fst kv) of Some j \<Rightarrow> j < i | None \<Rightarrow> False)"

definition setProp :: "(jsstring \<times> jsval) list \<Rightarrow> jsstring \<Rightarrow> jsval \<Rightarrow> (jsstring \<times> jsval) list" where
  "setProp kvs k v =
     (if k = str ''__proto__'' \<and> \<not> typeof_object v then kvs
      else if k \<in> set (map fst kvs) then map (\<lambda>kv. if fst kv = k then (k, v) else kv) kvs
      else case arrayIndex k of
             Some i \<Rightarrow> takeWhile (indexBelow i) kvs @ [(k, v)] @ dropWhile (indexBelow i) kvs
           | None \<Rightarrow> kvs @ [(k, v)])"

text \<open>
  \<^verbatim>\<open>(origin['raw'] || []).concat(line)\<close>: an array takes the line as a new element, a
  string is concatenated with it, a number or boolean has no \<^verbatim>\<open>concat\<close> to call.
\<close>

definition concatRaw :: "jsval \<Rightarrow> jsstring \<Rightarrow> error + jsval" where
  "concatRaw cur line =
     (case (if truthy cur then cur else JArr []) of
        JArr xs \<Rightarrow> Inr (JArr (xs @ [JStr line]))
      | JStr s \<Rightarrow> Inr (JStr (s @ line))
      | _ \<Rightarrow> Inl TypeError)"

text \<open>\<^verbatim>\<open>for (const line of lines)\<close> of the fallback, \<open>origin\<close> being the object under construction.\<close>

fun looseLoop :: "jsstring list \<Rightarrow> (jsstring \<times> jsval) list \<Rightarrow> error + (jsstring \<times> jsval) list" where
  "looseLoop [] origin = Inr origin"
| "looseLoop (line # rest) origin =
     (case matchLine line of
        Some (k, m2) \<Rightarrow> looseLoop rest (setProp origin k (coerce m2))
      | None \<Rightarrow>
          (case getProp (JObj origin) (str ''raw'') of
             Inl e \<Rightarrow> Inl e
           | Inr cur \<Rightarrow>
               (case concatRaw cur line of
                  Inl e \<Rightarrow> Inl e
                | Inr v \<Rightarrow> looseLoop rest (setProp origin (str ''raw'') v))))"

definition parseLoose :: "jsstring \<Rightarrow> error + jsval" where
  "parseLoose raw =
     (let lines = filter (\<lambda>l. length (trim l) > 0) (splitLines [] raw)
      in case looseLoop lines [] of
           Inl e \<Rightarrow> Inl e
         | Inr origin \<Rightarrow> Inr (JObj origin))"

subsection \<open>\<^verbatim>\<open>main\<close>\<close>

text \<open>
  What \<^verbatim>\<open>parseArgs\<close> returns, as far as \<^verbatim>\<open>main\<close> reads it: a value option is a string
  or absent (\<open>None\<close> for \<open>undefined\<close>), a flag is \<open>true\<close> or absent.
\<close>

record args =
  arg_indent :: "jsstring option"
  arg_truncate :: "jsstring option"
  arg_title :: "jsstring option"
  arg_version :: "jsstring option"
  arg_no_mono :: bool
  arg_single :: bool

text \<open>\<^verbatim>\<open>Number(a || dflt)\<close>: the empty string is falsy too.\<close>

definition numberArg :: "jsstring option \<Rightarrow> int \<Rightarrow> jsnum" where
  "numberArg a dflt =
     (case a of
        Some s \<Rightarrow> if s \<noteq> [] then stringToNumber s else Fin dflt 0
      | None \<Rightarrow> Fin dflt 0)"

text \<open>\<^verbatim>\<open>a || dflt\<close>\<close>

definition stringArg :: "jsstring option \<Rightarrow> jsstring \<Rightarrow> jsstring" where
  "stringArg a dflt = (case a of Some s \<Rightarrow> if s \<noteq> [] then s else dflt | None \<Rightarrow> dflt)"

definition mainOpts :: "args \<Rightarrow> jsstring \<Rightarrow> options" where
  "mainOpts a defaultTitle =
     \<lparr> indentSize = numberArg (arg_indent a) 5,
       truncateLen = numberArg (arg_truncate a) 0,
       title = stringArg (arg_title a) defaultTitle,
       version = stringArg (arg_version a) (str ''1.5''),
       useMonospace = (\<not> arg_no_mono a),
       mode = (if arg_single a then str ''single'' else str ''textblock'') \<rparr>"

text \<open>
  \<^verbatim>\<open>main\<close> from the point where the input is read: \<open>raw\<close> is the text, \<open>parsed\<close> what
  \<^verbatim>\<open>tryParseJSON(raw)\<close> returned (\<open>JNull\<close> when the text is no JSON) and \<open>now\<close> the
  clock. The result is the value handed to \<^verbatim>\<open>JSON.stringify\<close>.
\<close>

definition main :: "args \<Rightarrow> jsstring \<Rightarrow> jsval \<Rightarrow> int \<Rightarrow> error + jsval" where
  "main a raw parsed now =
     (if truthy parsed then
        (case getProp parsed (str ''subscriptionNotification'') of
           Inl e \<Rightarrow> Inl e
         | Inr sn \<Rightarrow>
             if truthy sn
             then buildAdaptiveMessage parsed (mainOpts a (str ''Subscription PNS'')) now
             else buildAdaptiveMessage parsed (mainOpts a (str ''PNS'')) now)
      else
        (case parseLoose raw of
           Inl e \<Rightarrow> Inl e
         | Inr origin \<Rightarrow> buildAdaptiveMessage origin (mainOpts a (str ''PNS'')) now))"

section \<open>Documents and the shape of the rendering\<close>

definition nullish :: "jsval \<Rightarrow> bool" where
  "nullish v = (v = JNull \<or> v = JUndefined)"

text \<open>
  A document: an object, each key once. No item of its payment type list, if it has
  one, is \<open>null\<close>: in the data model the items of a sequence are documents, and the
  renderer reads two properties of each item.
\<close>

definition isDocument :: "jsval \<Rightarrow> bool" where
  "isDocument v =
     (case v of
        JObj kvs \<Rightarrow>
          distinct (map fst kvs)
          \<and> (case map_of kvs (str ''paymentTypeList'') of
                Some (JArr items) \<Rightarrow> list_all (\<lambda>item. \<not> nullish item) items
              | _ \<Rightarrow> True)
      | _ \<Rightarrow> False)"

text \<open>
  The rest of this section describes the output of the two loops without their
  accumulator: the block of lines that each key contributes. The loops are proved
  equal to the concatenation of these blocks below.
\<close>

text \<open>The value a property read yields when the read does not throw.\<close>

definition field :: "jsval \<Rightarrow> jsstring \<Rightarrow> jsval" where
  "field v k = (case getProp v k of Inr x \<Rightarrow> x | Inl e \<Rightarrow> JUndefined)"

definition keysOf :: "jsval \<Rightarrow> jsstring list" where
  "keysOf v = (case objectKeys v of Inr ks \<Rightarrow> ks | Inl e \<Rightarrow> [])"

text \<open>The line of a scalar entry: indent, quoted key, colon, formatted value, comma.\<close>

definition scalarLine :: "jsstring \<Rightarrow> jsstring \<Rightarrow> jsstring \<Rightarrow> jsstring \<Rightarrow> jsstring" where
  "scalarLine ind key fv comma = ind @ str ''\"'' @ key @ str ''\": '' @ fv @ comma"

text \<open>Line \<open>idx\<close> of \<open>n\<close> in the payment type list.\<close>

definition paymentItemLine :: "jsstring \<Rightarrow> jsnum \<Rightarrow> nat \<Rightarrow> nat \<Rightarrow> jsval \<Rightarrow> jsstring" where
  "paymentItemLine ind2 trunc n idx item =
     ind2 @ NBSP @ NBSP @ str ''{ \"paymentMethod\": ''
       @ formatValue (field item (str ''paymentMethod'')) trunc
       @ str '', \"amount\": '' @ formatValue (field item (str ''amount'')) trunc
       @ str '' }'' @ (if idx + 1 < n then str '','' else [])"

text \<open>The lines one key of the generic variant contributes.\<close>

definition genericEntry ::
  "jsval \<Rightarrow> jsstring \<Rightarrow> jsstring \<Rightarrow> jsnum \<Rightarrow> jsstring list \<Rightarrow> jsstring \<Rightarrow> jsstring list" where
  "genericEntry origin ind ind2 trunc ordered key =
     (case (if key = str ''paymentTypeList'' then field origin key else JUndefined) of
        JArr items \<Rightarrow>
          [ind @ str ''\"'' @ key @ str ''\": ['']
          @ map (\<lambda>(idx, item). paymentItemLine ind2 trunc (length items) idx item)
              (enumerate 0 items)
          @ [ind @ str ''],'']
      | _ \<Rightarrow>
          [scalarLine ind key (formatValue (field origin key) trunc)
             (if key \<noteq> last ordered then str '','' else [])])"

text \<open>Line \<open>idx\<close> of \<open>n\<close> in the subscription block.\<close>

definition subKeyLine :: "jsstring \<Rightarrow> jsnum \<Rightarrow> jsval \<Rightarrow> nat \<Rightarrow> nat \<Rightarrow> jsstring \<Rightarrow> jsstring" where
  "subKeyLine ind2 trunc val n idx subKey =
     (if subKey \<in> set deepSubKeys then ind2 @ NBSP @ NBSP else ind2)
       @ str ''\"'' @ subKey @ str ''\": '' @ formatValue (field val subKey) trunc
       @ (if idx + 1 < n then str '','' else [])"

text \<open>The lines one present key of the subscription variant contributes.\<close>

definition subscriptionEntry ::
  "jsval \<Rightarrow> jsstring \<Rightarrow> jsstring \<Rightarrow> jsnum \<Rightarrow> jsstring \<Rightarrow> jsstring list" where
  "subscriptionEntry origin ind ind2 trunc key =
     (if key = str ''subscriptionNotification'' \<and> truthy (field origin key)
          \<and> typeof_object (field origin key)
      then [ind @ str ''\"'' @ key @ str ''\": {'']
           @ map (\<lambda>(idx, subKey).
                    subKeyLine ind2 trunc (field origin key)
                      (length (keysOf (field origin key))) idx subKey)
               (enumerate 0 (keysOf (field origin key)))
           @ [ind @ str ''},'']
      else [scalarLine ind key (formatValue (field origin key) trunc)
              (if key \<noteq> str ''marketCode'' then str '','' else [])])"

text \<open>
  The fixed precedence of the subscription variant in the words of the specification,
  with \<^verbatim>\<open>environment\<close> where the list of the code has \<^verbatim>\<open>environmenmt\<close>.
\<close>

definition policyAPrecedence :: "jsstring list" where
  "policyAPrecedence =
     [str ''msgVersion'', str ''clientId'', str ''eventTimeMillis'',
      str ''subscriptionNotification'', str ''environment'', str ''marketCode'']"

section \<open>Basic facts\<close>

lemma length_str [simp]: "length (str s) = length s"
  by (simp add: str_def)

lemma cu_of_char_inj [simp]: "cu_of_char a = cu_of_char b \<longleftrightarrow> a = b"
proof
  assume h: "cu_of_char a = cu_of_char b"
  have lt: "\<And>c :: char. (of_char c :: nat) < 2 ^ 16"
  proof -
    fix c :: char
    have "(of_char c :: nat) < 256" by (rule nat_of_char_less_256)
    moreover have "(256 :: nat) \<le> 2 ^ 16" by simp
    ultimately show "(of_char c :: nat) < 2 ^ 16" by (rule less_le_trans)
  qed
  have "unat (cu_of_char a) = unat (cu_of_char b)" using h by simp
  then have "(of_char a :: nat) = of_char b"
    using lt [of a] lt [of b] by (simp add: cu_of_char_def unat_of_nat)
  then show "a = b" by simp
qed simp

lemma str_inj [simp]: "str a = str b \<longleftrightarrow> a = b"
proof -
  have "inj cu_of_char" by (rule injI) simp
  then show ?thesis by (simp add: str_def)
qed

section \<open>Truncation\<close>

lemma truncateStr_nat:
  "truncateStr s (nat_num L) = (if 0 < L \<and> L < length s then take L s @ str ''...'' else s)"
  by (simp add: truncateStr_def nat_num_def slice0_def min_def)

text \<open>
  C6 (as stated): for every string \<open>s\<close> and limits \<open>0 < L \<le> L'\<close>, truncating with \<open>L'\<close>
  what truncation with \<open>L\<close> produced gives the same string. It fails when \<open>L'\<close> lies
  one or two above \<open>L\<close>: the marker itself is then cut and a second one appended.
\<close>

theorem truncation_not_idempotent:
  "(0::nat) < 2 \<and> (2::nat) \<le> 3 \<and>
   truncateStr (str ''abcdef'') (nat_num 2) = str ''ab...'' \<and>
   truncateStr (truncateStr (str ''abcdef'') (nat_num 2)) (nat_num 3) = str ''ab....'' \<and>
   truncateStr (truncateStr (str ''abcdef'') (nat_num 2)) (nat_num 3)
     \<noteq> truncateStr (str ''abcdef'') (nat_num 2)"
  by (simp add: truncateStr_nat str_def)

text \<open>
  C6 (amended): for limits \<open>0 < L \<le> L'\<close>, re-truncating with \<open>L'\<close> the result of
  truncating \<open>s\<close> with \<open>L\<close> yields the same string exactly when \<open>s\<close> is no longer than
  \<open>L\<close> (nothing was cut), or \<open>L' = L\<close>, or \<open>L'\<close> is at least \<open>L + 3\<close>, the length of the
  truncated text with its marker; the rendered value \<^verbatim>\<open>formatValue\<close> gives agrees then.
\<close>

theorem truncation_idempotent_iff:
  assumes "0 < L" and "L \<le> L'"
  shows "(truncateStr (truncateStr s (nat_num L)) (nat_num L') = truncateStr s (nat_num L)
           \<longleftrightarrow> length s \<le> L \<or> L' = L \<or> L + 3 \<le> L')
         \<and> (formatValue (JStr (truncateStr s (nat_num L))) (nat_num L')
              = formatValue (JStr s) (nat_num L)
           \<longleftrightarrow> length s \<le> L \<or> L' = L \<or> L + 3 \<le> L')"
proof -
  have main: "truncateStr (truncateStr s (nat_num L)) (nat_num L') = truncateStr s (nat_num L)
           \<longleftrightarrow> length s \<le> L \<or> L' = L \<or> L + 3 \<le> L'"
  proof (cases "L < length s")
    case False
    with assms show ?thesis by (simp add: truncateStr_nat)
  next
    case True
    let ?t = "take L s @ str ''...''"
    have t: "truncateStr s (nat_num L) = ?t"
      using True assms by (simp add: truncateStr_nat)
    have lt: "length ?t = L + 3"
      using True by simp
    show ?thesis
    proof (cases "L' < L + 3")
      case False
      then show ?thesis using t lt assms True by (simp add: truncateStr_nat)
    next
      case near: True
      have r: "truncateStr ?t (nat_num L') = take L' ?t @ str ''...''"
        using near assms lt by (simp add: truncateStr_nat del: length_append)
      show ?thesis
      proof (cases "L' = L")
        case True
        then show ?thesis using t r \<open>L < length s\<close> by simp
      next
        case False
        have "length (take L' ?t @ str ''...'') = L' + 3"
          using near lt by simp
        then have "take L' ?t @ str ''...'' \<noteq> ?t"
          using lt False by (metis add_right_cancel)
        then show ?thesis using t r False near True by simp
      qed
    qed
  qed
  then show ?thesis by simp
qed

theorem truncation_idempotent_witness:
  "(0::nat) < 2 \<and> (2::nat) \<le> 5 \<and>
   truncateStr (truncateStr (str ''abcdefgh'') (nat_num 2)) (nat_num 5)
     = truncateStr (str ''abcdefgh'') (nat_num 2) \<and>
   truncateStr (str ''abcdefgh'') (nat_num 2) = str ''ab...''"
  using truncation_idempotent_iff [of 2 5 "str ''abcdefgh''"]
  by (simp add: truncateStr_nat str_def)

section \<open>Scenarios\<close>

text \<open>
  C8: the document \<^verbatim>\<open>{"msgVersion":"1.0","clientId":"abc"}\<close> with the default options
  (indent 5, no truncation) renders as four lines: the opening brace, five NBSP and
  \<^verbatim>\<open>"msgVersion": "1.0",\<close>, five NBSP and \<^verbatim>\<open>"clientId": "abc"\<close> with no comma, the
  closing brace.
\<close>

theorem scenario_two_scalars:
  "originToPrettyLines
     (JObj [(str ''msgVersion'', JStr (str ''1.0'')), (str ''clientId'', JStr (str ''abc''))])
     (Fin 5 0) (Fin 0 0)
   = Inr [str ''{'',
          replicate 5 0xA0 @ str ''\"msgVersion\": \"1.0\",'',
          replicate 5 0xA0 @ str ''\"clientId\": \"abc\"'',
          str ''}'']"
  by code_simp

section \<open>The loops in closed form\<close>

lemma getProp_field: "\<not> nullish v \<Longrightarrow> getProp v k = Inr (field v k)"
  by (cases v) (simp_all add: field_def nullish_def)

lemma objectKeys_keysOf: "\<not> nullish v \<Longrightarrow> objectKeys v = Inr (keysOf v)"
  by (cases v) (simp_all add: keysOf_def nullish_def)

lemma truthy_not_nullish: "truthy v \<Longrightarrow> \<not> nullish v"
  by (auto simp: nullish_def)

lemma paymentLines_closed:
  "list_all (\<lambda>i. \<not> nullish i) rest \<Longrightarrow>
   paymentLines ind2 t val idx rest lines
     = Inr (lines @ map (\<lambda>(i, item). paymentItemLine ind2 t (length val) i item) (enumerate idx rest))"
proof (induction rest arbitrary: idx lines)
  case Nil
  then show ?case by simp
next
  case (Cons item rest)
  then have ok: "\<not> nullish item" and rest: "list_all (\<lambda>i. \<not> nullish i) rest"
    by simp_all
  have c: "(int idx < int (length val) - 1) = (idx + 1 < length val)"
    by linarith
  show ?case
    using Cons.IH [OF rest, of "Suc idx"]
    by (simp add: getProp_field [OF ok] paymentItemLine_def c Let_def)
qed

lemma subKeyLines_closed:
  "\<not> nullish val \<Longrightarrow>
   subKeyLines ind2 t val subKeys idx rest lines
     = Inr (lines @ map (\<lambda>(i, k). subKeyLine ind2 t val (length subKeys) i k) (enumerate idx rest))"
proof (induction rest arbitrary: idx lines)
  case Nil
  then show ?case by simp
next
  case (Cons subKey rest)
  have c: "(int idx < int (length subKeys) - 1) = (idx + 1 < length subKeys)"
    by linarith
  show ?case
    using Cons.IH [OF Cons.prems, of "Suc idx"]
    by (simp add: getProp_field [OF Cons.prems] subKeyLine_def c Let_def)
qed

lemma genericLoop_closed:
  assumes "\<not> nullish origin"
    and "\<And>items. field origin (str ''paymentTypeList'') = JArr items
           \<Longrightarrow> list_all (\<lambda>i. \<not> nullish i) items"
  shows "genericLoop origin ind ind2 t ordered keys lines
           = Inr (lines @ concat (map (genericEntry origin ind ind2 t ordered) keys))"
proof (induction keys arbitrary: lines)
  case Nil
  then show ?case by simp
next
  case (Cons key keys)
  show ?case
  proof (cases "if key = str ''paymentTypeList'' then field origin key else JUndefined")
    case (JArr items)
    then have k: "key = str ''paymentTypeList''" and f: "field origin key = JArr items"
      by (simp_all split: if_splits)
    have ok: "list_all (\<lambda>i. \<not> nullish i) items"
      using assms(2) f k by simp
    show ?thesis
      using JArr f k
      by (simp add: getProp_field [OF assms(1)] genericEntry_def paymentLines_closed [OF ok] Cons.IH)
  qed (simp_all add: getProp_field [OF assms(1)] genericEntry_def scalarLine_def Cons.IH Let_def)
qed

lemma last_input2Order: "last input2Order = str ''marketCode''"
  by (simp add: input2Order_def)

lemma subscriptionLoop_step:
  assumes "\<not> nullish origin" and "hasOwn origin key"
  shows "subscriptionLoop origin ind ind2 t (key # keys) lines
           = subscriptionLoop origin ind ind2 t keys
               (lines @ subscriptionEntry origin ind ind2 t key)"
proof (cases "key = str ''subscriptionNotification'' \<and> truthy (field origin key)
                \<and> typeof_object (field origin key)")
  case True
  then have k: "key = str ''subscriptionNotification''" and tr: "truthy (field origin key)"
    and ob: "typeof_object (field origin key)"
    by blast+
  have nn: "\<not> nullish (field origin (str ''subscriptionNotification''))"
    using tr k truthy_not_nullish by blast
  have e: "subscriptionEntry origin ind ind2 t key
           = [ind @ str ''\"'' @ key @ str ''\": {'']
             @ map (\<lambda>(idx, subKey).
                      subKeyLine ind2 t (field origin key)
                        (length (keysOf (field origin key))) idx subKey)
                 (enumerate 0 (keysOf (field origin key)))
             @ [ind @ str ''},'']"
    unfolding subscriptionEntry_def using k tr ob by auto
  show ?thesis
    unfolding e using k tr ob assms(2)
    by (auto simp add: getProp_field [OF assms(1)] objectKeys_keysOf [OF nn]
        subKeyLines_closed [OF nn])
next
  case False
  have e: "subscriptionEntry origin ind ind2 t key
           = [ind @ str ''\"'' @ key @ str ''\": '' @ formatValue (field origin key) t
                @ (if key \<noteq> str ''marketCode'' then str '','' else [])]"
    unfolding subscriptionEntry_def scalarLine_def using False by auto
  have s: "subscriptionLoop origin ind ind2 t (key # keys) lines
           = subscriptionLoop origin ind ind2 t keys
               (lines @ [ind @ str ''\"'' @ key @ str ''\": '' @ formatValue (field origin key) t
                          @ (if key \<noteq> last input2Order then str '','' else [])])"
    using False assms(2)
    by (auto simp add: getProp_field [OF assms(1)] Let_def)
  show ?thesis
    unfolding e s last_input2Order ..
qed

lemma subscriptionLoop_closed:
  assumes "\<not> nullish origin"
  shows "subscriptionLoop origin ind ind2 t keys lines
           = Inr (lines @ concat (map (subscriptionEntry origin ind ind2 t)
                                    (filter (hasOwn origin) keys)))"
proof (induction keys arbitrary: lines)
  case Nil
  then show ?case by simp
next
  case (Cons key keys)
  show ?case
  proof (cases "hasOwn origin key")
    case False
    then show ?thesis by (simp add: Cons.IH)
  next
    case True
    show ?thesis
      unfolding subscriptionLoop_step [OF assms True] Cons.IH
      using True by simp
  qed
qed

lemma indent_nat: "indent (nat_num n) = Inr (replicate n 0xA0)"
  by (simp add: indent_def repeat_str_def nat_num_def NBSP_def sgn_if)

lemma num_plus_nat: "num_plus (nat_num n) 2 = nat_num (n + 2)"
  by (simp add: nat_num_def)

lemma originToPrettyLines_generic:
  assumes "\<not> nullish origin"
    and "\<not> truthy (field origin (str ''subscriptionNotification''))"
    and "\<And>items. field origin (str ''paymentTypeList'') = JArr items
           \<Longrightarrow> list_all (\<lambda>i. \<not> nullish i) items"
  shows "originToPrettyLines origin (nat_num n) t
           = Inr (str ''{'' #
                  concat (map (genericEntry origin (replicate n 0xA0) (replicate (n + 2) 0xA0) t
                                 (orderedKeys (keysOf origin)))
                            (orderedKeys (keysOf origin)))
                  @ [str ''}''])"
  using assms(2)
  by (simp add: originToPrettyLines_def indent_nat num_plus_nat getProp_field [OF assms(1)]
      objectKeys_keysOf [OF assms(1)] genericLoop_closed [OF assms(1) assms(3)] Let_def)

lemma originToPrettyLines_subscription:
  assumes "\<not> nullish origin"
    and "truthy (field origin (str ''subscriptionNotification''))"
  shows "originToPrettyLines origin (nat_num n) t
           = Inr (str ''{'' #
                  concat (map (subscriptionEntry origin (replicate n 0xA0) (replicate (n + 2) 0xA0) t)
                            (filter (hasOwn origin) input2Order))
                  @ [str ''}''])"
  using assms(2)
  by (simp add: originToPrettyLines_def indent_nat num_plus_nat getProp_field [OF assms(1)]
      subscriptionLoop_closed [OF assms(1)])

section \<open>Documents\<close>

lemma distinct_preferredOrder: "distinct preferredOrder"
  by (simp add: preferredOrder_def)

lemma distinct_input2Order: "distinct input2Order"
  by (simp add: input2Order_def)

lemma isDocument_not_nullish: "isDocument origin \<Longrightarrow> \<not> nullish origin"
  by (cases origin) (simp_all add: isDocument_def nullish_def)

lemma isDocument_distinct: "isDocument origin \<Longrightarrow> distinct (keysOf origin)"
  by (cases origin) (simp_all add: isDocument_def keysOf_def)

lemma field_absent:
  "isDocument origin \<Longrightarrow> k \<notin> set (keysOf origin) \<Longrightarrow> field origin k = JUndefined"
  by (cases origin)
    (auto simp: isDocument_def keysOf_def field_def map_of_eq_None_iff [THEN iffD2]
      split: option.splits)

lemma document_payment_items:
  assumes "isDocument origin" and "field origin (str ''paymentTypeList'') = JArr items"
  shows "list_all (\<lambda>i. \<not> nullish i) items"
proof -
  obtain kvs where o: "origin = JObj kvs"
    using assms(1) by (cases origin) (simp_all add: isDocument_def)
  have "map_of kvs (str ''paymentTypeList'') = Some (JArr items)"
    using assms(2) o by (simp add: field_def split: option.splits)
  then show ?thesis
    using assms(1) o by (simp add: isDocument_def)
qed

lemma mset_orderedKeys:
  assumes "distinct keys"
  shows "mset (orderedKeys keys) = mset keys"
proof -
  have "distinct (filter (\<lambda>k. k \<in> set keys) preferredOrder)"
    using distinct_preferredOrder by simp
  moreover have "distinct (filter (\<lambda>k. k \<in> set preferredOrder) keys)"
    using assms by simp
  moreover have "set (filter (\<lambda>k. k \<in> set keys) preferredOrder)
                 = set (filter (\<lambda>k. k \<in> set preferredOrder) keys)"
    by auto
  ultimately have "mset (filter (\<lambda>k. k \<in> set keys) preferredOrder)
                   = mset (filter (\<lambda>k. k \<in> set preferredOrder) keys)"
    by (rule set_eq_iff_mset_eq_distinct [THEN iffD1])
  then show ?thesis
    by (simp add: orderedKeys_def)
qed

lemma distinct_orderedKeys: "distinct keys \<Longrightarrow> distinct (orderedKeys keys)"
  using distinct_preferredOrder by (auto simp: orderedKeys_def)

lemma set_orderedKeys: "set (orderedKeys keys) = set keys"
  by (auto simp: orderedKeys_def)

lemma length_orderedKeys: "distinct keys \<Longrightarrow> length (orderedKeys keys) = length keys"
  using mset_orderedKeys [of keys] by (metis size_mset)

lemma genericEntry_head:
  "\<exists>rest more. genericEntry origin ind ind2 t ordered key
                  = (ind @ str ''\"'' @ key @ str ''\": '' @ rest) # more"
proof (cases "if key = str ''paymentTypeList'' then field origin key else JUndefined")
  case (JArr items)
  have "str ''\": ['' = str ''\": '' @ str ''[''"
    by (simp add: str_def)
  then show ?thesis
    using JArr by (simp add: genericEntry_def)
qed (simp_all add: genericEntry_def scalarLine_def)

section \<open>Key coverage of the generic variant\<close>

text \<open>
  C5: a document without the \<^verbatim>\<open>subscriptionNotification\<close> key is rendered as the opening
  brace, one block of lines per top-level key and the closing brace. The blocks follow
  \<^verbatim>\<open>ordered\<close>: the keys of the fixed precedence list that the input has, in the listed
  order, then the input's other keys in their own order; \<^verbatim>\<open>ordered\<close> holds every
  input key exactly once. The block of a key starts with the line that names it (the
  scalar line, or the opening line of the payment type list that the items follow).
\<close>

theorem policyB_key_coverage:
  assumes "isDocument origin"
    and "str ''subscriptionNotification'' \<notin> set (keysOf origin)"
  shows "originToPrettyLines origin (nat_num n) t
           = Inr (str ''{'' #
                  concat (map (genericEntry origin (replicate n 0xA0) (replicate (n + 2) 0xA0) t
                                 (orderedKeys (keysOf origin)))
                            (orderedKeys (keysOf origin)))
                  @ [str ''}''])
         \<and> mset (orderedKeys (keysOf origin)) = mset (keysOf origin)
         \<and> orderedKeys (keysOf origin)
             = filter (\<lambda>k. k \<in> set (keysOf origin)) preferredOrder
               @ filter (\<lambda>k. k \<notin> set preferredOrder) (keysOf origin)
         \<and> (\<forall>key. \<exists>rest more.
               genericEntry origin (replicate n 0xA0) (replicate (n + 2) 0xA0) t
                 (orderedKeys (keysOf origin)) key
               = (replicate n 0xA0 @ str ''\"'' @ key @ str ''\": '' @ rest) # more)"
proof -
  have "field origin (str ''subscriptionNotification'') = JUndefined"
    using field_absent [OF assms] .
  then have nt: "\<not> truthy (field origin (str ''subscriptionNotification''))"
    by simp
  show ?thesis
    using originToPrettyLines_generic [OF isDocument_not_nullish [OF assms(1)] nt
        document_payment_items [OF assms(1)]]
      mset_orderedKeys [OF isDocument_distinct [OF assms(1)]]
      genericEntry_head
    by (simp add: orderedKeys_def)
qed

theorem policyB_key_coverage_witness:
  "isDocument (JObj [(str ''zeta'', JNum (Fin 1 0)), (str ''clientId'', JStr (str ''abc'')),
                     (str ''msgVersion'', JStr (str ''1.0'')), (str ''alpha'', JBool True)])
   \<and> str ''subscriptionNotification''
       \<notin> set (keysOf (JObj [(str ''zeta'', JNum (Fin 1 0)), (str ''clientId'', JStr (str ''abc'')),
                     (str ''msgVersion'', JStr (str ''1.0'')), (str ''alpha'', JBool True)]))
   \<and> orderedKeys (keysOf (JObj [(str ''zeta'', JNum (Fin 1 0)), (str ''clientId'', JStr (str ''abc'')),
                     (str ''msgVersion'', JStr (str ''1.0'')), (str ''alpha'', JBool True)]))
       = [str ''msgVersion'', str ''clientId'', str ''zeta'', str ''alpha'']
   \<and> originToPrettyLines
         (JObj [(str ''zeta'', JNum (Fin 1 0)), (str ''clientId'', JStr (str ''abc'')),
                (str ''msgVersion'', JStr (str ''1.0'')), (str ''alpha'', JBool True)])
         (nat_num 1) (Fin 0 0)
       = Inr [str ''{'',
              [0xA0] @ str ''\"msgVersion\": \"1.0\",'',
              [0xA0] @ str ''\"clientId\": \"abc\",'',
              [0xA0] @ str ''\"zeta\": 1,'',
              [0xA0] @ str ''\"alpha\": true'',
              str ''}'']"
proof -
  let ?D = "JObj [(str ''zeta'', JNum (Fin 1 0)), (str ''clientId'', JStr (str ''abc'')),
                  (str ''msgVersion'', JStr (str ''1.0'')), (str ''alpha'', JBool True)]"
  have d: "isDocument ?D" by code_simp
  have k: "str ''subscriptionNotification'' \<notin> set (keysOf ?D)" by code_simp
  have o: "orderedKeys (keysOf ?D) = [str ''msgVersion'', str ''clientId'', str ''zeta'', str ''alpha'']"
    by code_simp
  have g: "concat (map (genericEntry ?D (replicate 1 0xA0) (replicate (1 + 2) 0xA0) (Fin 0 0)
                          [str ''msgVersion'', str ''clientId'', str ''zeta'', str ''alpha''])
                     [str ''msgVersion'', str ''clientId'', str ''zeta'', str ''alpha''])
           = [[0xA0] @ str ''\"msgVersion\": \"1.0\",'',
              [0xA0] @ str ''\"clientId\": \"abc\",'',
              [0xA0] @ str ''\"zeta\": 1,'',
              [0xA0] @ str ''\"alpha\": true'']"
    by code_simp
  from policyB_key_coverage [OF d k, of 1 "Fin 0 0"]
  have "originToPrettyLines ?D (nat_num 1) (Fin 0 0)
        = Inr (str ''{'' #
               concat (map (genericEntry ?D (replicate 1 0xA0) (replicate (1 + 2) 0xA0) (Fin 0 0)
                              (orderedKeys (keysOf ?D))) (orderedKeys (keysOf ?D)))
               @ [str ''}''])"
    by blast
  then show ?thesis
    unfolding o g using d k by simp
qed

section \<open>Counting lines\<close>

lemma length_concat_entries:
  assumes "distinct ks"
    and "\<And>k. length (f k) = 1 + (if k = a then c else 0)"
  shows "length (concat (map f ks)) = length ks + (if a \<in> set ks then c else 0)"
  using assms(1)
proof (induction ks)
  case Nil
  then show ?case by simp
next
  case (Cons k ks)
  then show ?case by (auto simp: assms(2))
qed

lemma length_genericEntry:
  "length (genericEntry origin ind ind2 t ordered key)
     = 1 + (if key = str ''paymentTypeList''
            then (case field origin (str ''paymentTypeList'') of
                    JArr items \<Rightarrow> length items + 1 | _ \<Rightarrow> 0)
            else 0)"
  by (simp add: genericEntry_def split: jsval.splits)

lemma length_subscriptionEntry:
  "length (subscriptionEntry origin ind ind2 t key)
     = 1 + (if key = str ''subscriptionNotification''
            then (if truthy (field origin (str ''subscriptionNotification''))
                     \<and> typeof_object (field origin (str ''subscriptionNotification''))
                  then length (keysOf (field origin (str ''subscriptionNotification''))) + 1
                  else 0)
            else 0)"
  by (simp add: subscriptionEntry_def)

lemma hasOwn_document: "isDocument origin \<Longrightarrow> hasOwn origin k = (k \<in> set (keysOf origin))"
  by (cases origin) (simp_all add: isDocument_def keysOf_def)

lemma length_filter_swap:
  assumes "distinct xs" and "distinct ys"
  shows "length (filter (\<lambda>k. k \<in> set ys) xs) = length (filter (\<lambda>k. k \<in> set xs) ys)"
proof -
  have "distinct (filter (\<lambda>k. k \<in> set ys) xs)" "distinct (filter (\<lambda>k. k \<in> set xs) ys)"
    using assms by simp_all
  moreover have "set (filter (\<lambda>k. k \<in> set ys) xs) = set (filter (\<lambda>k. k \<in> set xs) ys)"
    by auto
  ultimately have "mset (filter (\<lambda>k. k \<in> set ys) xs) = mset (filter (\<lambda>k. k \<in> set xs) ys)"
    by (rule set_eq_iff_mset_eq_distinct [THEN iffD1])
  then show ?thesis by (metis size_mset)
qed

lemma filter_precedence_eq:
  assumes "str ''environment'' \<notin> set keys" and "str ''environmenmt'' \<notin> set keys"
  shows "filter (\<lambda>k. k \<in> set input2Order) keys = filter (\<lambda>k. k \<in> set policyAPrecedence) keys"
proof (rule filter_cong [OF refl])
  fix k assume "k \<in> set keys"
  then have "k \<noteq> str ''environment''" "k \<noteq> str ''environmenmt''"
    using assms by auto
  then show "(k \<in> set input2Order) = (k \<in> set policyAPrecedence)"
    by (auto simp: input2Order_def policyAPrecedence_def)
qed

text \<open>
  C4 (as stated): the number of rendered lines is the number of top-level keys, plus
  the lines of an expansion, plus two. Under the subscription variant the keys outside
  its list are dropped, so a document can render to fewer lines than it has keys plus
  two.
\<close>

theorem line_count_subscription_drops_keys:
  "isDocument (JObj [(str ''subscriptionNotification'', JObj [(str ''version'', JStr (str ''1.0''))]),
                     (str ''orderId'', JStr (str ''A1'')),
                     (str ''packageName'', JStr (str ''com.x'')),
                     (str ''purchaseState'', JNum (Fin 0 0))])
   \<and> originToPrettyLines
         (JObj [(str ''subscriptionNotification'', JObj [(str ''version'', JStr (str ''1.0''))]),
                (str ''orderId'', JStr (str ''A1'')),
                (str ''packageName'', JStr (str ''com.x'')),
                (str ''purchaseState'', JNum (Fin 0 0))])
         (nat_num 5) (Fin 0 0)
       = Inr [str ''{'',
              replicate 5 0xA0 @ str ''\"subscriptionNotification\": {'',
              replicate 9 0xA0 @ str ''\"version\": \"1.0\"'',
              replicate 5 0xA0 @ str ''},'',
              str ''}'']
   \<and> length (keysOf
         (JObj [(str ''subscriptionNotification'', JObj [(str ''version'', JStr (str ''1.0''))]),
                (str ''orderId'', JStr (str ''A1'')),
                (str ''packageName'', JStr (str ''com.x'')),
                (str ''purchaseState'', JNum (Fin 0 0))])) + 2 = 6"
  by code_simp

text \<open>
  C4 (amended): for a document and a non-negative integer indent,
  rendering succeeds. Under the generic variant the number of lines is the number of
  top-level keys plus two, plus the number of items and one more (the closing line)
  when \<^verbatim>\<open>paymentTypeList\<close> holds an array. Under the subscription variant, for a
  document that has neither a key \<^verbatim>\<open>environment\<close> nor a key \<^verbatim>\<open>environmenmt\<close> (the one
  entry on which the list of the code and the list of the specification differ), it
  is the number of top-level keys that belong to the precedence list plus two, plus
  the number of sub-keys and one more when \<^verbatim>\<open>subscriptionNotification\<close> holds an object
  or array; the other keys are dropped and add no line. Nothing is said about the
  count of a subscription document that has one of those two keys.
\<close>

theorem line_count:
  assumes "isDocument origin"
  shows "(if truthy (field origin (str ''subscriptionNotification''))
          then str ''environment'' \<notin> set (keysOf origin)
               \<and> str ''environmenmt'' \<notin> set (keysOf origin)
               \<longrightarrow> (\<exists>lines. originToPrettyLines origin (nat_num n) t = Inr lines
                     \<and> length lines
                         = length (filter (\<lambda>k. k \<in> set policyAPrecedence) (keysOf origin))
                           + (if typeof_object (field origin (str ''subscriptionNotification''))
                              then length (keysOf (field origin (str ''subscriptionNotification''))) + 1
                              else 0)
                           + 2)
          else (\<exists>lines. originToPrettyLines origin (nat_num n) t = Inr lines
                 \<and> length lines
                     = length (keysOf origin)
                       + (case field origin (str ''paymentTypeList'') of
                            JArr items \<Rightarrow> length items + 1 | _ \<Rightarrow> 0)
                       + 2))"
proof (cases "truthy (field origin (str ''subscriptionNotification''))")
  case True
  have nn: "\<not> nullish origin" using assms by (rule isDocument_not_nullish)
  have d: "distinct (keysOf origin)" using assms by (rule isDocument_distinct)
  have sn: "str ''subscriptionNotification'' \<in> set (keysOf origin)"
    using True field_absent [OF assms] by fastforce
  have f: "filter (hasOwn origin) input2Order = filter (\<lambda>k. k \<in> set (keysOf origin)) input2Order"
    by (rule filter_cong) (simp_all add: hasOwn_document [OF assms])
  have dl: "distinct (filter (\<lambda>k. k \<in> set (keysOf origin)) input2Order)"
    using distinct_input2Order by simp
  have m: "str ''subscriptionNotification'' \<in> set (filter (\<lambda>k. k \<in> set (keysOf origin)) input2Order)"
    using sn by (simp add: input2Order_def)
  have len: "length (concat (map (subscriptionEntry origin (replicate n 0xA0)
                                    (replicate (n + 2) 0xA0) t)
                               (filter (\<lambda>k. k \<in> set (keysOf origin)) input2Order)))
             = length (filter (\<lambda>k. k \<in> set (keysOf origin)) input2Order)
               + (if typeof_object (field origin (str ''subscriptionNotification''))
                  then length (keysOf (field origin (str ''subscriptionNotification''))) + 1
                  else 0)"
    using length_concat_entries [OF dl, where f = "subscriptionEntry origin (replicate n 0xA0)
                                    (replicate (n + 2) 0xA0) t"
        and a = "str ''subscriptionNotification''",
        OF length_subscriptionEntry [THEN trans]] m True
    by simp
  show ?thesis
  proof -
    have "str ''environment'' \<notin> set (keysOf origin)
          \<and> str ''environmenmt'' \<notin> set (keysOf origin)
          \<longrightarrow> (\<exists>lines. originToPrettyLines origin (nat_num n) t = Inr lines
               \<and> length lines
                   = length (filter (\<lambda>k. k \<in> set policyAPrecedence) (keysOf origin))
                     + (if typeof_object (field origin (str ''subscriptionNotification''))
                        then length (keysOf (field origin (str ''subscriptionNotification''))) + 1
                        else 0)
                     + 2)"
    proof
      assume e: "str ''environment'' \<notin> set (keysOf origin)
                 \<and> str ''environmenmt'' \<notin> set (keysOf origin)"
      have "length (filter (\<lambda>k. k \<in> set (keysOf origin)) input2Order)
            = length (filter (\<lambda>k. k \<in> set input2Order) (keysOf origin))"
        by (rule length_filter_swap [OF distinct_input2Order d])
      also have "\<dots> = length (filter (\<lambda>k. k \<in> set policyAPrecedence) (keysOf origin))"
        using filter_precedence_eq e by simp
      finally show "\<exists>lines. originToPrettyLines origin (nat_num n) t = Inr lines
               \<and> length lines
                   = length (filter (\<lambda>k. k \<in> set policyAPrecedence) (keysOf origin))
                     + (if typeof_object (field origin (str ''subscriptionNotification''))
                        then length (keysOf (field origin (str ''subscriptionNotification''))) + 1
                        else 0)
                     + 2"
        using originToPrettyLines_subscription [OF nn True, of n t] len
        by (simp add: f)
    qed
    then show ?thesis using True by simp
  qed
next
  case False
  have nn: "\<not> nullish origin" using assms by (rule isDocument_not_nullish)
  have d: "distinct (orderedKeys (keysOf origin))"
    using assms by (simp add: distinct_orderedKeys isDocument_distinct)
  have in_keys: "field origin (str ''paymentTypeList'') \<noteq> JUndefined
                 \<Longrightarrow> str ''paymentTypeList'' \<in> set (orderedKeys (keysOf origin))"
    using field_absent [OF assms] by (auto simp: set_orderedKeys)
  have len: "length (concat (map (genericEntry origin (replicate n 0xA0) (replicate (n + 2) 0xA0) t
                                    (orderedKeys (keysOf origin)))
                               (orderedKeys (keysOf origin))))
             = length (keysOf origin)
               + (case field origin (str ''paymentTypeList'') of
                    JArr items \<Rightarrow> length items + 1 | _ \<Rightarrow> 0)"
    using length_concat_entries [OF d, where f = "genericEntry origin (replicate n 0xA0)
                                    (replicate (n + 2) 0xA0) t (orderedKeys (keysOf origin))"
        and a = "str ''paymentTypeList''",
        OF length_genericEntry [THEN trans]] in_keys
    by (auto simp: length_orderedKeys [OF isDocument_distinct [OF assms]] split: jsval.splits)
  show ?thesis
    using False originToPrettyLines_generic [OF nn False document_payment_items [OF assms], of n t] len
    by simp
qed

theorem line_count_witness:
  "isDocument (JObj [(str ''msgVersion'', JStr (str ''1.0'')),
                     (str ''paymentTypeList'',
                        JArr [JObj [(str ''paymentMethod'', JStr (str ''CARD'')),
                                    (str ''amount'', JNum (Fin 100 0))],
                              JObj [(str ''paymentMethod'', JStr (str ''POINT'')),
                                    (str ''amount'', JNum (Fin 5 0))]])])
   \<and> (\<exists>lines.
         originToPrettyLines
           (JObj [(str ''msgVersion'', JStr (str ''1.0'')),
                  (str ''paymentTypeList'',
                     JArr [JObj [(str ''paymentMethod'', JStr (str ''CARD'')),
                                 (str ''amount'', JNum (Fin 100 0))],
                           JObj [(str ''paymentMethod'', JStr (str ''POINT'')),
                                 (str ''amount'', JNum (Fin 5 0))]])])
           (nat_num 5) (Fin 0 0) = Inr lines
         \<and> length lines = 2 + 3 + 2)
   \<and> isDocument (JObj [(str ''msgVersion'', JStr (str ''1.0'')),
                       (str ''subscriptionNotification'',
                          JObj [(str ''version'', JStr (str ''1.0'')),
                                (str ''productId'', JStr (str ''p1''))]),
                       (str ''marketCode'', JStr (str ''KR'')),
                       (str ''orderId'', JStr (str ''A1''))])
   \<and> (\<exists>lines.
         originToPrettyLines
           (JObj [(str ''msgVersion'', JStr (str ''1.0'')),
                  (str ''subscriptionNotification'',
                     JObj [(str ''version'', JStr (str ''1.0'')),
                           (str ''productId'', JStr (str ''p1''))]),
                  (str ''marketCode'', JStr (str ''KR'')),
                  (str ''orderId'', JStr (str ''A1''))])
           (nat_num 5) (Fin 0 0) = Inr lines
         \<and> length lines = 3 + 3 + 2)"
proof -
  let ?D = "JObj [(str ''msgVersion'', JStr (str ''1.0'')),
                  (str ''paymentTypeList'',
                     JArr [JObj [(str ''paymentMethod'', JStr (str ''CARD'')),
                                 (str ''amount'', JNum (Fin 100 0))],
                           JObj [(str ''paymentMethod'', JStr (str ''POINT'')),
                                 (str ''amount'', JNum (Fin 5 0))]])]"
  let ?S = "JObj [(str ''msgVersion'', JStr (str ''1.0'')),
                  (str ''subscriptionNotification'',
                     JObj [(str ''version'', JStr (str ''1.0'')),
                           (str ''productId'', JStr (str ''p1''))]),
                  (str ''marketCode'', JStr (str ''KR'')),
                  (str ''orderId'', JStr (str ''A1''))]"
  have d: "isDocument ?D" by code_simp
  have nt: "\<not> truthy (field ?D (str ''subscriptionNotification''))" by code_simp
  have k: "length (keysOf ?D) = 2" by code_simp
  have p: "field ?D (str ''paymentTypeList'')
           = JArr [JObj [(str ''paymentMethod'', JStr (str ''CARD'')),
                         (str ''amount'', JNum (Fin 100 0))],
                   JObj [(str ''paymentMethod'', JStr (str ''POINT'')),
                         (str ''amount'', JNum (Fin 5 0))]]"
    by code_simp
  have generic: "\<exists>lines. originToPrettyLines ?D (nat_num 5) (Fin 0 0) = Inr lines
                   \<and> length lines = 2 + 3 + 2"
    using line_count [OF d, of 5 "Fin 0 0"] nt
    unfolding k p by simp
  have ds: "isDocument ?S" by code_simp
  have t: "truthy (field ?S (str ''subscriptionNotification''))" by code_simp
  have ob: "typeof_object (field ?S (str ''subscriptionNotification''))" by code_simp
  have e: "str ''environment'' \<notin> set (keysOf ?S) \<and> str ''environmenmt'' \<notin> set (keysOf ?S)"
    by code_simp
  have ks: "length (filter (\<lambda>k. k \<in> set policyAPrecedence) (keysOf ?S)) = 3" by code_simp
  have sk: "length (keysOf (field ?S (str ''subscriptionNotification''))) = 2" by code_simp
  have subscription: "\<exists>lines. originToPrettyLines ?S (nat_num 5) (Fin 0 0) = Inr lines
                        \<and> length lines = 3 + 3 + 2"
    using line_count [OF ds, of 5 "Fin 0 0"] t ob e
    unfolding ks sk by simp
  show ?thesis
    using d generic ds subscription by blast
qed

section \<open>Choice of the variant\<close>

lemma genericEntry_scalar:
  "key \<noteq> str ''paymentTypeList'' \<Longrightarrow>
   genericEntry origin ind ind2 t ordered key
     = [scalarLine ind key (formatValue (field origin key) t)
          (if key \<noteq> last ordered then str '','' else [])]"
  by (simp add: genericEntry_def)

text \<open>
  C10: the variant is chosen by the truthiness of the \<^verbatim>\<open>subscriptionNotification\<close>
  value, not by the presence of the key. A document that has the key with a falsy
  value (\<open>null\<close>, \<open>false\<close>, \<open>0\<close> or the empty string are falsy) is rendered by the
  generic variant, the key being one of its ordinary scalar entries; with a truthy
  value it is rendered by the subscription variant, where the key is expanded into a
  block (opening line, sub-keys, closing line) only if the value is an object, and
  is a scalar line otherwise.
\<close>

theorem policy_selected_by_truthiness:
  assumes "isDocument origin"
    and "str ''subscriptionNotification'' \<in> set (keysOf origin)"
  shows "(if truthy (field origin (str ''subscriptionNotification''))
          then originToPrettyLines origin (nat_num n) t
                 = Inr (str ''{'' #
                        concat (map (subscriptionEntry origin (replicate n 0xA0)
                                       (replicate (n + 2) 0xA0) t)
                                  (filter (\<lambda>k. k \<in> set (keysOf origin)) input2Order))
                        @ [str ''}''])
               \<and> str ''subscriptionNotification''
                   \<in> set (filter (\<lambda>k. k \<in> set (keysOf origin)) input2Order)
               \<and> (if typeof_object (field origin (str ''subscriptionNotification''))
                  then length (subscriptionEntry origin (replicate n 0xA0) (replicate (n + 2) 0xA0) t
                                 (str ''subscriptionNotification''))
                         = length (keysOf (field origin (str ''subscriptionNotification''))) + 2
                  else subscriptionEntry origin (replicate n 0xA0) (replicate (n + 2) 0xA0) t
                         (str ''subscriptionNotification'')
                         = [scalarLine (replicate n 0xA0) (str ''subscriptionNotification'')
                              (formatValue (field origin (str ''subscriptionNotification'')) t)
                              (str '','')])
          else originToPrettyLines origin (nat_num n) t
                 = Inr (str ''{'' #
                        concat (map (genericEntry origin (replicate n 0xA0)
                                       (replicate (n + 2) 0xA0) t (orderedKeys (keysOf origin)))
                                  (orderedKeys (keysOf origin)))
                        @ [str ''}''])
               \<and> str ''subscriptionNotification'' \<in> set (orderedKeys (keysOf origin))
               \<and> genericEntry origin (replicate n 0xA0) (replicate (n + 2) 0xA0) t
                    (orderedKeys (keysOf origin)) (str ''subscriptionNotification'')
                   = [scalarLine (replicate n 0xA0) (str ''subscriptionNotification'')
                        (formatValue (field origin (str ''subscriptionNotification'')) t)
                        (if str ''subscriptionNotification'' \<noteq> last (orderedKeys (keysOf origin))
                         then str '','' else [])])
         \<and> \<not> truthy JNull \<and> \<not> truthy (JBool False) \<and> \<not> truthy (JNum (Fin 0 0))
         \<and> \<not> truthy (JStr [])"
proof (cases "truthy (field origin (str ''subscriptionNotification''))")
  case True
  have nn: "\<not> nullish origin" using assms(1) by (rule isDocument_not_nullish)
  have f: "filter (hasOwn origin) input2Order = filter (\<lambda>k. k \<in> set (keysOf origin)) input2Order"
    by (rule filter_cong) (simp_all add: hasOwn_document [OF assms(1)])
  have m: "str ''subscriptionNotification''
             \<in> set (filter (\<lambda>k. k \<in> set (keysOf origin)) input2Order)"
    using assms(2) by (simp add: input2Order_def)
  show ?thesis
    using True originToPrettyLines_subscription [OF nn True, of n t] m
    by (simp add: f subscriptionEntry_def)
next
  case False
  have nn: "\<not> nullish origin" using assms(1) by (rule isDocument_not_nullish)
  have m: "str ''subscriptionNotification'' \<in> set (orderedKeys (keysOf origin))"
    using assms(2) by (simp add: set_orderedKeys)
  show ?thesis
    using False originToPrettyLines_generic
      [OF nn False document_payment_items [OF assms(1)], of n t] m
    by (simp add: genericEntry_scalar)
qed

theorem policy_selected_by_truthiness_witness:
  "isDocument (JObj [(str ''msgVersion'', JStr (str ''1.0'')),
                     (str ''subscriptionNotification'', JNull),
                     (str ''marketCode'', JStr (str ''KR''))])
   \<and> \<not> truthy (field (JObj [(str ''msgVersion'', JStr (str ''1.0'')),
                             (str ''subscriptionNotification'', JNull),
                             (str ''marketCode'', JStr (str ''KR''))])
                  (str ''subscriptionNotification''))
   \<and> orderedKeys (keysOf (JObj [(str ''msgVersion'', JStr (str ''1.0'')),
                                (str ''subscriptionNotification'', JNull),
                                (str ''marketCode'', JStr (str ''KR''))]))
       = [str ''msgVersion'', str ''marketCode'', str ''subscriptionNotification'']
   \<and> originToPrettyLines
         (JObj [(str ''msgVersion'', JStr (str ''1.0'')),
                (str ''subscriptionNotification'', JNull),
                (str ''marketCode'', JStr (str ''KR''))])
         (nat_num 1) (Fin 0 0)
       = Inr [str ''{'',
              [0xA0] @ str ''\"msgVersion\": \"1.0\",'',
              [0xA0] @ str ''\"marketCode\": \"KR\",'',
              [0xA0] @ str ''\"subscriptionNotification\": null'',
              str ''}'']"
proof -
  let ?D = "JObj [(str ''msgVersion'', JStr (str ''1.0'')),
                  (str ''subscriptionNotification'', JNull),
                  (str ''marketCode'', JStr (str ''KR''))]"
  have d: "isDocument ?D" by code_simp
  have k: "str ''subscriptionNotification'' \<in> set (keysOf ?D)" by code_simp
  have nt: "\<not> truthy (field ?D (str ''subscriptionNotification''))" by code_simp
  have o: "orderedKeys (keysOf ?D)
           = [str ''msgVersion'', str ''marketCode'', str ''subscriptionNotification'']"
    by code_simp
  have g: "concat (map (genericEntry ?D (replicate 1 0xA0) (replicate (1 + 2) 0xA0) (Fin 0 0)
                          [str ''msgVersion'', str ''marketCode'', str ''subscriptionNotification''])
                     [str ''msgVersion'', str ''marketCode'', str ''subscriptionNotification''])
           = [[0xA0] @ str ''\"msgVersion\": \"1.0\",'',
              [0xA0] @ str ''\"marketCode\": \"KR\",'',
              [0xA0] @ str ''\"subscriptionNotification\": null'']"
    by code_simp
  have "originToPrettyLines ?D (nat_num 1) (Fin 0 0)
        = Inr (str ''{'' #
               concat (map (genericEntry ?D (replicate 1 0xA0) (replicate (1 + 2) 0xA0) (Fin 0 0)
                              (orderedKeys (keysOf ?D))) (orderedKeys (keysOf ?D)))
               @ [str ''}''])"
    using policy_selected_by_truthiness [OF d k, of 1 "Fin 0 0"] nt by simp
  then show ?thesis
    unfolding o g using d nt by simp
qed

section \<open>The subscription variant on concrete documents\<close>

text \<open>
  C2: under the subscription variant the key \<^verbatim>\<open>environment\<close> should be rendered between
  the subscription block and \<^verbatim>\<open>marketCode\<close>. The list of the code spells the key
  \<^verbatim>\<open>environmenmt\<close>, so the document below, which has \<^verbatim>\<open>environment\<close>, gets no line
  for it.
\<close>

theorem subscription_environment_not_rendered:
  "originToPrettyLines
     (JObj [(str ''subscriptionNotification'', JObj [(str ''version'', JStr (str ''1.0''))]),
            (str ''environment'', JStr (str ''prod'')),
            (str ''marketCode'', JStr (str ''KR''))])
     (Fin 5 0) (Fin 0 0)
   = Inr [str ''{'',
          replicate 5 0xA0 @ str ''\"subscriptionNotification\": {'',
          replicate 9 0xA0 @ str ''\"version\": \"1.0\"'',
          replicate 5 0xA0 @ str ''},'',
          replicate 5 0xA0 @ str ''\"marketCode\": \"KR\"'',
          str ''}'']"
  by code_simp

text \<open>No document has its \<^verbatim>\<open>environment\<close> key among the keys the subscription variant renders.\<close>

lemma subscription_skips_environment:
  "str ''environment'' \<notin> set (filter (hasOwn origin) input2Order)"
  by (simp add: input2Order_def)

text \<open>
  C3: the comma should be omitted on the last entry present. The subscription
  variant compares the key with the last element of its fixed list
  (\<^verbatim>\<open>marketCode\<close>) instead, so in a document without \<^verbatim>\<open>marketCode\<close> the last
  entry keeps its comma (the generic variant compares with the last key present).
\<close>

theorem subscription_last_entry_keeps_comma:
  "originToPrettyLines
     (JObj [(str ''msgVersion'', JStr (str ''1.0'')),
            (str ''clientId'', JStr (str ''abc'')),
            (str ''subscriptionNotification'', JStr (str ''RENEWED''))])
     (Fin 5 0) (Fin 0 0)
   = Inr [str ''{'',
          replicate 5 0xA0 @ str ''\"msgVersion\": \"1.0\",'',
          replicate 5 0xA0 @ str ''\"clientId\": \"abc\",'',
          replicate 5 0xA0 @ str ''\"subscriptionNotification\": \"RENEWED\",'',
          str ''}'']"
  by code_simp

section \<open>Options of the card assembler\<close>

text \<open>
  C9: for every document, every sequence of rendered lines and every clock reading,
  the card body and the envelope are the same whatever \<^verbatim>\<open>mode\<close> (\<^verbatim>\<open>'textblock'\<close> or
  \<^verbatim>\<open>'single'\<close>) and \<^verbatim>\<open>useMonospace\<close> are, and so is the result of \<^verbatim>\<open>main\<close> whatever the
  flags \<^verbatim>\<open>--single\<close> and \<^verbatim>\<open>--no-mono\<close> are: nothing reads the two options.
\<close>

theorem layout_options_ignored:
  "linesToAdaptiveBody lines (opts\<lparr>mode := m, useMonospace := u\<rparr>) now
     = linesToAdaptiveBody lines opts now
   \<and> buildAdaptiveMessage origin (opts\<lparr>mode := m, useMonospace := u\<rparr>) now
       = buildAdaptiveMessage origin opts now
   \<and> main (a\<lparr>arg_single := single, arg_no_mono := noMono\<rparr>) raw parsed now
       = main a raw parsed now"
proof -
  have b: "\<And>lines. linesToAdaptiveBody lines (opts\<lparr>mode := m, useMonospace := u\<rparr>) now
             = linesToAdaptiveBody lines opts now"
    by (simp add: linesToAdaptiveBody_def)
  have m: "\<And>origin opts m u. buildAdaptiveMessage origin (opts\<lparr>mode := m, useMonospace := u\<rparr>) now
             = buildAdaptiveMessage origin opts now"
    by (simp add: buildAdaptiveMessage_def linesToAdaptiveBody_def split: sum.splits)
  have o: "\<And>ttl. mainOpts (a\<lparr>arg_single := single, arg_no_mono := noMono\<rparr>) ttl
             = (mainOpts a ttl)\<lparr>mode := (if single then str ''single'' else str ''textblock''),
                               useMonospace := \<not> noMono\<rparr>"
    by (simp add: mainOpts_def)
  show ?thesis
    by (simp add: b m main_def o split: sum.splits)
qed

section \<open>Non-numeric option strings\<close>

lemma truncateStr_NaN: "truncateStr s NaN = s"
  by (simp add: truncateStr_def)

lemma truncateStr_zero: "truncateStr s (Fin 0 0) = s"
  by (simp add: truncateStr_def)

lemma formatValue_NaN: "formatValue v NaN = formatValue v (Fin 0 0)"
  by (cases v) (simp_all add: truncateStr_NaN truncateStr_zero)

lemma subKeyLines_NaN:
  "subKeyLines ind2 NaN val subKeys idx rest lines
     = subKeyLines ind2 (Fin 0 0) val subKeys idx rest lines"
  by (induction rest arbitrary: idx lines) (simp_all add: formatValue_NaN split: sum.splits)

lemma paymentLines_NaN:
  "paymentLines ind2 NaN val idx rest lines = paymentLines ind2 (Fin 0 0) val idx rest lines"
  by (induction rest arbitrary: idx lines) (simp_all add: formatValue_NaN split: sum.splits)

lemma subscriptionLoop_NaN:
  "subscriptionLoop origin ind ind2 NaN keys lines
     = subscriptionLoop origin ind ind2 (Fin 0 0) keys lines"
  by (induction keys arbitrary: lines)
    (simp_all add: formatValue_NaN subKeyLines_NaN split: sum.splits)

lemma genericLoop_NaN:
  "genericLoop origin ind ind2 NaN ordered keys lines
     = genericLoop origin ind ind2 (Fin 0 0) ordered keys lines"
  by (induction keys arbitrary: lines)
    (simp_all add: formatValue_NaN paymentLines_NaN split: sum.splits jsval.splits)

lemma originToPrettyLines_NaN:
  "originToPrettyLines origin i NaN = originToPrettyLines origin i (Fin 0 0)"
  by (simp add: originToPrettyLines_def subscriptionLoop_NaN genericLoop_NaN Let_def
      split: sum.splits)

lemma stringToNumber_empty: "stringToNumber [] = Fin 0 0"
  by (simp add: stringToNumber_def trim_def)

lemma numberArg_NaN: "stringToNumber s = NaN \<Longrightarrow> numberArg (Some s) dflt = NaN"
  using stringToNumber_empty by (auto simp: numberArg_def)

text \<open>
  C1 (amended): an option string that \<^verbatim>\<open>Number\<close> cannot read converts to \<open>NaN\<close> and no
  error arises from it. For \<^verbatim>\<open>--truncate\<close> the result of \<^verbatim>\<open>main\<close> is the one of the
  default 0: nothing is truncated. For \<^verbatim>\<open>--indent\<close> the default 5 is not put in its
  place: the indent size is \<open>NaN\<close>, for which both indentation strings are empty.
\<close>

theorem non_numeric_options:
  assumes "stringToNumber s = NaN"
  shows "main (a\<lparr>arg_truncate := Some s\<rparr>) raw parsed now
           = main (a\<lparr>arg_truncate := None\<rparr>) raw parsed now
         \<and> mainOpts (a\<lparr>arg_indent := Some s\<rparr>) ttl = (mainOpts a ttl)\<lparr>indentSize := NaN\<rparr>
         \<and> indent NaN = Inr [] \<and> indent (num_plus NaN 2) = Inr []"
proof -
  have t: "\<And>ttl. mainOpts (a\<lparr>arg_truncate := Some s\<rparr>) ttl
             = (mainOpts (a\<lparr>arg_truncate := None\<rparr>) ttl)\<lparr>truncateLen := NaN\<rparr>"
    by (simp add: mainOpts_def numberArg_NaN [OF assms])
  have z: "\<And>ttl. truncateLen (mainOpts (a\<lparr>arg_truncate := None\<rparr>) ttl) = Fin 0 0"
    by (simp add: mainOpts_def numberArg_def)
  have b: "\<And>origin ttl.
             buildAdaptiveMessage origin (mainOpts (a\<lparr>arg_truncate := Some s\<rparr>) ttl) now
             = buildAdaptiveMessage origin (mainOpts (a\<lparr>arg_truncate := None\<rparr>) ttl) now"
    unfolding t
    by (simp add: buildAdaptiveMessage_def linesToAdaptiveBody_def originToPrettyLines_NaN z
        split: sum.splits)
  have i: "mainOpts (a\<lparr>arg_indent := Some s\<rparr>) ttl = (mainOpts a ttl)\<lparr>indentSize := NaN\<rparr>"
    by (simp add: mainOpts_def numberArg_NaN [OF assms])
  have e: "indent NaN = Inr [] \<and> indent (num_plus NaN 2) = Inr []"
    by (simp add: indent_def repeat_str_def)
  show ?thesis
    using i e by (simp add: main_def b split: sum.splits)
qed

theorem non_numeric_options_witness:
  "stringToNumber (str ''abc'') = NaN
   \<and> main \<lparr>arg_indent = None, arg_truncate = Some (str ''abc''), arg_title = None,
           arg_version = None, arg_no_mono = False, arg_single = False\<rparr>
        [] (JObj [(str ''a'', JStr (str ''b''))]) 0
     = main \<lparr>arg_indent = None, arg_truncate = None, arg_title = None,
             arg_version = None, arg_no_mono = False, arg_single = False\<rparr>
        [] (JObj [(str ''a'', JStr (str ''b''))]) 0"
proof -
  have n: "stringToNumber (str ''abc'') = NaN" by code_simp
  show ?thesis
    using non_numeric_options [OF n,
        of "\<lparr>arg_indent = None, arg_truncate = None, arg_title = None,
             arg_version = None, arg_no_mono = False, arg_single = False\<rparr>"
           "[]" "JObj [(str ''a'', JStr (str ''b''))]" 0] n
    by simp
qed

text \<open>
  C1 (as stated): a non-numeric \<^verbatim>\<open>--indent\<close> should behave as the default 5. With
  \<^verbatim>\<open>--indent abc\<close> the lines carry no indentation, with the default they carry five
  NBSP, and the two results of \<^verbatim>\<open>main\<close> differ.
\<close>

theorem non_numeric_indent_not_default:
  "stringToNumber (str ''abc'') = NaN
   \<and> originToPrettyLines (JObj [(str ''a'', JStr (str ''b''))])
        (indentSize (mainOpts \<lparr>arg_indent = Some (str ''abc''), arg_truncate = None,
                                arg_title = None, arg_version = None, arg_no_mono = False,
                                arg_single = False\<rparr> (str ''PNS'')))
        (Fin 0 0)
      = Inr [str ''{'', str ''\"a\": \"b\"'', str ''}'']
   \<and> originToPrettyLines (JObj [(str ''a'', JStr (str ''b''))])
        (indentSize (mainOpts \<lparr>arg_indent = None, arg_truncate = None,
                                arg_title = None, arg_version = None, arg_no_mono = False,
                                arg_single = False\<rparr> (str ''PNS'')))
        (Fin 0 0)
      = Inr [str ''{'', replicate 5 0xA0 @ str ''\"a\": \"b\"'', str ''}'']
   \<and> main \<lparr>arg_indent = Some (str ''abc''), arg_truncate = None, arg_title = None,
           arg_version = None, arg_no_mono = False, arg_single = False\<rparr>
        [] (JObj [(str ''a'', JStr (str ''b''))]) 0
     \<noteq> main \<lparr>arg_indent = None, arg_truncate = None, arg_title = None,
             arg_version = None, arg_no_mono = False, arg_single = False\<rparr>
        [] (JObj [(str ''a'', JStr (str ''b''))]) 0"
  by code_simp

section \<open>The fallback parser on concrete input\<close>

text \<open>
  C7: every line that does not match should be appended to the sequence under
  \<^verbatim>\<open>raw\<close>. When a matching line has set the key \<^verbatim>\<open>raw\<close> to a number, the next
  non-matching line calls \<^verbatim>\<open>concat\<close> on that number: a TypeError, which \<^verbatim>\<open>main\<close> does
  not catch.
\<close>

theorem loose_parse_raw_key_collision:
  "parseLoose (str ''raw: 5\<newline>badline'') = Inl TypeError
   \<and> main a (str ''raw: 5\<newline>badline'') JNull now = Inl TypeError"
proof -
  have p: "parseLoose (str ''raw: 5\<newline>badline'') = Inl TypeError"
    by code_simp
  show ?thesis
    by (simp add: p main_def)
qed

text \<open>The scenario of the specification, where no line uses the key \<^verbatim>\<open>raw\<close>.\<close>

lemma loose_parse_scenario:
  "parseLoose (str ''key1: value1\<newline>badline\<newline>key2: 5'')
   = Inr (JObj [(str ''key1'', JStr (str ''value1'')),
                (str ''raw'', JArr [JStr (str ''badline'')]),
                (str ''key2'', JNum (Fin 5 0))])"
  by code_simp

section \<open>Unmatched lines when no key collides\<close>

text \<open>
  Apart from the collision above the fallback parser does accumulate: when no
  matching line has the key \<^verbatim>\<open>raw\<close>, parsing succeeds and \<^verbatim>\<open>raw\<close> holds exactly the
  non-matching lines, verbatim and in the order met (and is absent when every line
  matches).
\<close>

lemma map_of_update_in_place:
  "map_of (map (\<lambda>kv. if fst kv = k then (k, v) else kv) kvs) k'
     = (if k' = k \<and> k \<in> fst ` set kvs then Some v else map_of kvs k')"
  by (induction kvs) (force simp: image_iff)+

lemma map_of_insert_between:
  assumes "k \<notin> fst ` set kvs"
  shows "map_of (takeWhile P kvs @ [(k, v)] @ dropWhile P kvs) k'
           = (if k' = k then Some v else map_of kvs k')"
proof -
  have "set (takeWhile P kvs) \<subseteq> set kvs"
    by (auto dest: set_takeWhileD)
  then have "k \<notin> fst ` set (takeWhile P kvs)"
    using assms by auto
  then have n: "map_of (takeWhile P kvs) k = None"
    by (simp add: map_of_eq_None_iff)
  have "map_of (takeWhile P kvs @ dropWhile P kvs) k'
        = (case map_of (takeWhile P kvs) k' of
             None \<Rightarrow> map_of (dropWhile P kvs) k' | Some x \<Rightarrow> Some x)"
    by (simp only: map_of_append map_add_def)
  then have a: "map_of kvs k'
        = (case map_of (takeWhile P kvs) k' of
             None \<Rightarrow> map_of (dropWhile P kvs) k' | Some x \<Rightarrow> Some x)"
    by simp
  have b: "map_of (takeWhile P kvs @ [(k, v)] @ dropWhile P kvs) k'
        = (case map_of (takeWhile P kvs) k' of
             None \<Rightarrow> (if k' = k then Some v else map_of (dropWhile P kvs) k')
           | Some x \<Rightarrow> Some x)"
    by (simp add: map_add_def split: option.splits)
  show ?thesis
    unfolding a b using n by (simp split: option.splits)
qed

lemma map_of_append_new:
  assumes "k \<notin> fst ` set kvs"
  shows "map_of (kvs @ [(k, v)]) k' = (if k' = k then Some v else map_of kvs k')"
proof -
  have n: "map_of kvs k = None"
    using assms by (simp add: map_of_eq_None_iff)
  show ?thesis
    using n by (simp add: map_add_def split: option.splits)
qed

lemma map_of_setProp:
  "map_of (setProp kvs k v) k'
     = (if k' = k \<and> \<not> (k = str ''__proto__'' \<and> \<not> typeof_object v) then Some v
        else map_of kvs k')"
proof (cases "k = str ''__proto__'' \<and> \<not> typeof_object v")
  case True
  then show ?thesis by (simp add: setProp_def)
next
  case False
  show ?thesis
  proof (cases "k \<in> fst ` set kvs")
    case True
    have "setProp kvs k v = map (\<lambda>kv. if fst kv = k then (k, v) else kv) kvs"
      using False True by (auto simp: setProp_def)
    then show ?thesis
      using False True by (simp add: map_of_update_in_place)
  next
    case nk: False
    have "setProp kvs k v
          = (case arrayIndex k of
               Some i \<Rightarrow> takeWhile (indexBelow i) kvs @ [(k, v)] @ dropWhile (indexBelow i) kvs
             | None \<Rightarrow> kvs @ [(k, v)])"
      using False nk by (auto simp: setProp_def)
    then show ?thesis
      using False map_of_insert_between [OF nk] map_of_append_new [OF nk]
      by (simp split: option.splits)
  qed
qed

lemma looseLoop_raw:
  assumes "list_all (\<lambda>l. case matchLine l of Some (k, m2) \<Rightarrow> k \<noteq> str ''raw'' | None \<Rightarrow> True) lines"
    and "map_of origin (str ''raw'') = (if acc = [] then None else Some (JArr (map JStr acc)))"
  shows "\<exists>kvs. looseLoop lines origin = Inr kvs
           \<and> map_of kvs (str ''raw'')
               = (if acc @ filter (\<lambda>l. matchLine l = None) lines = [] then None
                  else Some (JArr (map JStr (acc @ filter (\<lambda>l. matchLine l = None) lines))))"
  using assms
proof (induction lines arbitrary: origin acc)
  case Nil
  then show ?case by simp
next
  case (Cons line lines)
  have rest: "list_all (\<lambda>l. case matchLine l of Some (k, m2) \<Rightarrow> k \<noteq> str ''raw'' | None \<Rightarrow> True) lines"
    using Cons.prems(1) by simp
  show ?case
  proof (cases "matchLine line")
    case None
    let ?v = "JArr (map JStr (acc @ [line]))"
    have c: "concatRaw (case map_of origin (str ''raw'') of None \<Rightarrow> JUndefined | Some v \<Rightarrow> v) line
             = Inr ?v"
      using Cons.prems(2) by (simp add: concatRaw_def)
    have m: "map_of (setProp origin (str ''raw'') ?v) (str ''raw'')
             = (if acc @ [line] = [] then None else Some (JArr (map JStr (acc @ [line]))))"
      by (simp add: map_of_setProp)
    have step: "looseLoop (line # lines) origin = looseLoop lines (setProp origin (str ''raw'') ?v)"
      using None c by simp
    have f: "acc @ filter (\<lambda>l. matchLine l = None) (line # lines)
             = (acc @ [line]) @ filter (\<lambda>l. matchLine l = None) lines"
      using None by simp
    show ?thesis
      unfolding step f using Cons.IH [OF rest m] .
  next
    case (Some km)
    obtain k m2 where km: "km = (k, m2)" by (cases km)
    have nk: "k \<noteq> str ''raw''"
      using Cons.prems(1) Some km by simp
    have m: "map_of (setProp origin k (coerce m2)) (str ''raw'')
             = (if acc = [] then None else Some (JArr (map JStr acc)))"
      using nk Cons.prems(2) by (simp add: map_of_setProp)
    have step: "looseLoop (line # lines) origin = looseLoop lines (setProp origin k (coerce m2))"
      using Some km by simp
    have f: "filter (\<lambda>l. matchLine l = None) (line # lines)
             = filter (\<lambda>l. matchLine l = None) lines"
      using Some by simp
    show ?thesis
      unfolding step f using Cons.IH [OF rest m] .
  qed
qed

lemma parseLoose_accumulates_raw:
  assumes "list_all (\<lambda>l. case matchLine l of Some (k, m2) \<Rightarrow> k \<noteq> str ''raw'' | None \<Rightarrow> True)
             (filter (\<lambda>l. length (trim l) > 0) (splitLines [] raw))"
  shows "\<exists>kvs. parseLoose raw = Inr (JObj kvs)
           \<and> map_of kvs (str ''raw'')
               = (if filter (\<lambda>l. matchLine l = None)
                       (filter (\<lambda>l. length (trim l) > 0) (splitLines [] raw)) = [] then None
                  else Some (JArr (map JStr
                         (filter (\<lambda>l. matchLine l = None)
                            (filter (\<lambda>l. length (trim l) > 0) (splitLines [] raw))))))"
proof -
  obtain kvs where k: "looseLoop (filter (\<lambda>l. length (trim l) > 0) (splitLines [] raw)) [] = Inr kvs"
    and r: "map_of kvs (str ''raw'')
            = (if [] @ filter (\<lambda>l. matchLine l = None)
                         (filter (\<lambda>l. length (trim l) > 0) (splitLines [] raw)) = [] then None
               else Some (JArr (map JStr ([] @
                         filter (\<lambda>l. matchLine l = None)
                            (filter (\<lambda>l. length (trim l) > 0) (splitLines [] raw))))))"
    using looseLoop_raw [OF assms, of "[]" "[]"] by auto
  have "parseLoose raw = Inr (JObj kvs)"
    using k by (simp add: parseLoose_def)
  then show ?thesis
    using r by simp
qed

end
